theory Spec2Isabelle
  imports Main "HOL-Library.Word"
begin

unbundle bit_operations_syntax

section \<open>The operator table\<close>

text \<open>
  The members of the enumeration \<open>Operator\<close> of \<open>polyfile/expressions.py\<close>, in the
  order of their definition.
\<close>

datatype Operator =
    ENUM_ACCESSOR | MEMBER_ACCESS | UNARY_PLUS | UNARY_MINUS | LOGICAL_NOT | BITWISE_NOT
  | MULTIPLICATION | DIVISION | REMAINDER | ADDITION | SUBTRACTION
  | BITWISE_LEFT_SHIFT | BITWISE_RIGHT_SHIFT
  | LESS_THAN | GREATER_THAN | LESS_THAN_EQUAL | GREATER_THAN_EQUAL | EQUALS | NOT_EQUAL
  | BITWISE_AND | BITWISE_XOR | BITWISE_OR | LOGICAL_AND | LOGICAL_OR
  | TERNARY_ELSE | TERNARY_CONDITIONAL | GETITEM

text \<open>
  The attributes that \<open>Operator.__init__\<close> stores on a member (the \<open>execute\<close> closure is
  modelled separately, see \<open>execute\<close> below).
\<close>

record operator_attrs =
  token :: string
  priority :: int
  left_associative :: bool
  arity :: nat
  multiple_arity :: bool
  expand :: "bool list"

text \<open>
  \<open>Operator.__init__(self, token, priority, execute, is_left_associative=True, arity=2,
  multiple_arity=False, expand=None)\<close>: a missing \<open>expand\<close> becomes \<open>(True,) * arity\<close>.
\<close>

definition Operator_init ::
  "string \<Rightarrow> int \<Rightarrow> bool \<Rightarrow> nat \<Rightarrow> bool \<Rightarrow> bool list option \<Rightarrow> operator_attrs" where
  "Operator_init tok pri is_left_associative ar mult ex =
     \<lparr>token = tok, priority = pri, left_associative = is_left_associative, arity = ar,
      multiple_arity = mult,
      expand = (case ex of None \<Rightarrow> replicate ar True | Some e \<Rightarrow> e)\<rparr>"

text \<open>One line per member, the defaulted arguments of the source written out.\<close>

fun attrs :: "Operator \<Rightarrow> operator_attrs" where
  "attrs ENUM_ACCESSOR = Operator_init ''::'' 0 True 2 False (Some [True, False])"
| "attrs MEMBER_ACCESS = Operator_init ''.'' 1 True 2 False (Some [True, False])"
| "attrs UNARY_PLUS = Operator_init ''+'' 2 False 1 True None"
| "attrs UNARY_MINUS = Operator_init ''-'' 2 False 1 True None"
| "attrs LOGICAL_NOT = Operator_init ''not'' 2 False 1 False None"
| "attrs BITWISE_NOT = Operator_init ''~'' 2 False 1 False None"
| "attrs MULTIPLICATION = Operator_init ''*'' 3 True 2 False None"
| "attrs DIVISION = Operator_init ''/'' 3 True 2 False None"
| "attrs REMAINDER = Operator_init ''%'' 3 True 2 False None"
| "attrs ADDITION = Operator_init ''+'' 4 True 2 False None"
| "attrs SUBTRACTION = Operator_init ''-'' 4 True 2 False None"
| "attrs BITWISE_LEFT_SHIFT = Operator_init ''<<'' 5 True 2 False None"
| "attrs BITWISE_RIGHT_SHIFT = Operator_init ''>>'' 5 True 2 False None"
| "attrs LESS_THAN = Operator_init ''<'' 6 True 2 False None"
| "attrs GREATER_THAN = Operator_init ''>'' 6 True 2 False None"
| "attrs LESS_THAN_EQUAL = Operator_init ''<='' 6 True 2 False None"
| "attrs GREATER_THAN_EQUAL = Operator_init ''>='' 6 True 2 False None"
| "attrs EQUALS = Operator_init ''=='' 7 True 2 False None"
| "attrs NOT_EQUAL = Operator_init ''!='' 7 True 2 False None"
| "attrs BITWISE_AND = Operator_init ''&'' 8 True 2 False None"
| "attrs BITWISE_XOR = Operator_init ''^'' 9 True 2 False None"
| "attrs BITWISE_OR = Operator_init ''|'' 10 True 2 False None"
| "attrs LOGICAL_AND = Operator_init ''and'' 11 True 2 False None"
| "attrs LOGICAL_OR = Operator_init ''or'' 12 True 2 False None"
| "attrs TERNARY_ELSE = Operator_init '':'' 13 False 2 False (Some [False, False])"
| "attrs TERNARY_CONDITIONAL = Operator_init ''?'' 14 False 2 False (Some [True, False])"
| "attrs GETITEM = Operator_init ''__getitem__'' 1 True 2 False None"

definition all_operators :: "Operator list" where
  "all_operators =
     [ENUM_ACCESSOR, MEMBER_ACCESS, UNARY_PLUS, UNARY_MINUS, LOGICAL_NOT, BITWISE_NOT,
      MULTIPLICATION, DIVISION, REMAINDER, ADDITION, SUBTRACTION,
      BITWISE_LEFT_SHIFT, BITWISE_RIGHT_SHIFT,
      LESS_THAN, GREATER_THAN, LESS_THAN_EQUAL, GREATER_THAN_EQUAL, EQUALS, NOT_EQUAL,
      BITWISE_AND, BITWISE_XOR, BITWISE_OR, LOGICAL_AND, LOGICAL_OR,
      TERNARY_ELSE, TERNARY_CONDITIONAL, GETITEM]"

text \<open>
  \<open>OPERATORS_BY_NAME\<close>: every member registers itself under its token as it is created,
  unless it is flagged \<open>multiple_arity\<close>; a later member overwrites an earlier one.
\<close>

definition OPERATORS_BY_NAME :: "string \<rightharpoonup> Operator" where
  "OPERATORS_BY_NAME =
     foldl (\<lambda>m op. if multiple_arity (attrs op) then m else m(token (attrs op) \<mapsto> op))
       Map.empty all_operators"

definition IDENTIFIER_BYTES :: "char set" where
  "IDENTIFIER_BYTES =
     set ''ABCDEFGHIJKLMNOPQRSTUVWXYZ'' \<union> set ''abcdefghijklmnopqrstuvwxyz''
       \<union> set ''0123456789'' \<union> {CHR ''-'', CHR ''_''}"

section \<open>Tokens\<close>

text \<open>
  The concrete subclasses of \<open>Token\<close>. \<open>raw_token\<close> is the text each constructor hands
  to \<open>Token.__init__\<close>, and \<open>len(token)\<close> is the length of that text.
\<close>

datatype Token =
    OpenParen | CloseParen | OpenBracket | CloseBracket
  | OperatorToken Operator
  | IdentifierToken string
  | IntegerToken string int

fun raw_token :: "Token \<Rightarrow> string" where
  "raw_token OpenParen = ''(''"
| "raw_token CloseParen = '')''"
| "raw_token OpenBracket = ''[''"
| "raw_token CloseBracket = '']''"
| "raw_token (OperatorToken op) = token (attrs op)"
| "raw_token (IdentifierToken name) = name"
| "raw_token (IntegerToken raw_str v) = raw_str"

fun is_OperatorToken :: "Token \<Rightarrow> bool" where
  "is_OperatorToken (OperatorToken op) = True"
| "is_OperatorToken t = False"

section \<open>Values and exceptions\<close>

text \<open>
  Python exceptions, with the argument kept where the source builds one. \<open>Outside_model\<close>
  is not a Python exception: it marks an operation whose outcome depends on the identity
  of objects, which these values do not record. No \<open>except\<close> clause catches it.
\<close>

datatype 'v key_error_arg =
    Unknown_identifier string
  | Missing_key 'v
  | Failed_subscript 'v 'v

datatype 'v runtime_error_arg =
    Mismatched_parenthesis
  | Mismatched_brackets
  | Unexpected_extra_tokens "'v list"

datatype 'v exc =
    KeyError "'v key_error_arg"
  | TypeError | ValueError | AttributeError | IndexError | ZeroDivisionError
  | NotImplementedError
  | RuntimeError "'v runtime_error_arg"
  | Outside_model

text \<open>
  What the value stack of the evaluator and an assignments mapping can hold: \<open>None\<close>,
  integers, booleans, text (code points up to 255), byte sequences (\<open>bytes\<close>; a
  mutable \<open>bytearray\<close> is not among these values), mappings keyed by strings (an
  association list looked up with \<open>map_of\<close>), tuples, token objects and exception objects.
\<close>

datatype pyval =
    VNone
  | VInt int
  | VBool bool
  | VStr string
  | VBytes "8 word list"
  | VDict "(string \<times> pyval) list"
  | VTuple "pyval list"
  | VTok Token
  | VExc "pyval exc"

type_synonym error = "pyval exc"

section \<open>Python's \<open>int(text, base)\<close>\<close>

text \<open>
  The built-in conversion of text to an integer, for the bases the lexer uses (2, 8, 10
  and 16): surrounding whitespace is dropped, a sign may follow, then for the bases 2, 8
  and 16 the prefix \<open>0b\<close>, \<open>0o\<close>, \<open>0x\<close> (either case) and one underscore; then at
  least one digit of the base, with single underscores allowed between digits. \<open>None\<close>
  stands for \<open>ValueError\<close>.
\<close>

definition py_isspace :: "char \<Rightarrow> bool" where
  "py_isspace c \<longleftrightarrow>
     c \<in> {CHR 0x09, CHR 0x0A, CHR 0x0B, CHR 0x0C, CHR 0x0D, CHR 0x20, CHR 0x85, CHR 0xA0}"

definition digit_value :: "char \<Rightarrow> nat option" where
  "digit_value c =
     (if c \<in> set ''0123456789'' then Some (of_char c - 48)
      else if c \<in> set ''abcdefghijklmnopqrstuvwxyz'' then Some (of_char c - 87)
      else if c \<in> set ''ABCDEFGHIJKLMNOPQRSTUVWXYZ'' then Some (of_char c - 55)
      else None)"

text \<open>
  \<open>scan_digits base prev acc n s\<close> reads digits and underscores from \<open>s\<close>: \<open>prev\<close>
  tells whether the character before was an underscore, \<open>acc\<close> is the value and \<open>n\<close>
  the number of digits read so far. It stops at the first other character and returns
  what is left.
\<close>

fun scan_digits :: "nat \<Rightarrow> bool \<Rightarrow> int \<Rightarrow> nat \<Rightarrow> string \<Rightarrow> (int \<times> nat \<times> string) option" where
  "scan_digits base prev acc n [] = (if prev then None else Some (acc, n, []))"
| "scan_digits base prev acc n (c # cs) =
     (if c = CHR ''_'' then (if prev then None else scan_digits base True acc n cs)
      else (case digit_value c of
              Some d \<Rightarrow>
                if d < base then scan_digits base False (acc * int base + int d) (Suc n) cs
                else (if prev then None else Some (acc, n, c # cs))
            | None \<Rightarrow> (if prev then None else Some (acc, n, c # cs))))"

definition skip_prefix :: "nat \<Rightarrow> string \<Rightarrow> string" where
  "skip_prefix base s =
     (case s of
        c0 # c1 # rest \<Rightarrow>
          if c0 = CHR ''0'' \<and>
             ((base = 16 \<and> (c1 = CHR ''x'' \<or> c1 = CHR ''X'')) \<or>
              (base = 8 \<and> (c1 = CHR ''o'' \<or> c1 = CHR ''O'')) \<or>
              (base = 2 \<and> (c1 = CHR ''b'' \<or> c1 = CHR ''B'')))
          then (case rest of c2 # rest' \<Rightarrow> if c2 = CHR ''_'' then rest' else rest | [] \<Rightarrow> rest)
          else s
      | _ \<Rightarrow> s)"

text \<open>
  The digits after sign and prefix: they may not start with an underscore, there is at
  least one digit, and only whitespace may follow them.
\<close>

definition int_digits :: "nat \<Rightarrow> string \<Rightarrow> int option" where
  "int_digits base s =
     (case s of
        [] \<Rightarrow> None
      | c # _ \<Rightarrow>
          if c = CHR ''_'' then None
          else (case scan_digits base False 0 0 s of
                  None \<Rightarrow> None
                | Some (v, n, rest) \<Rightarrow>
                    if n = 0 then None
                    else if dropWhile py_isspace rest \<noteq> [] then None
                    else Some v))"

definition py_int :: "nat \<Rightarrow> string \<Rightarrow> int option" where
  "py_int base s =
     (let s1 = dropWhile py_isspace s;
          negative = (case s1 of c # _ \<Rightarrow> c = CHR ''-'' | [] \<Rightarrow> False);
          s2 = (case s1 of c # r \<Rightarrow> if c = CHR ''+'' \<or> c = CHR ''-'' then r else s1 | [] \<Rightarrow> s1)
      in case int_digits base (skip_prefix base s2) of
           None \<Rightarrow> None
         | Some v \<Rightarrow> Some (if negative then - v else v))"

section \<open>The tokenizer\<close>

text \<open>
  The state of a \<open>Tokenizer\<close>: the part of the input not yet read from the stream, the
  look-ahead buffer of characters, and the two token fields \<open>_next_token\<close> and
  \<open>prev_token\<close>.
\<close>

record tokenizer =
  stream :: string
  buffer :: string
  next_token :: "Token option"
  prev_token :: "Token option"

definition Tokenizer :: "string \<Rightarrow> tokenizer" where
  "Tokenizer s = \<lparr>stream = s, buffer = [], next_token = None, prev_token = None\<rparr>"

text \<open>\<open>self._stream.read(n)\<close>: up to \<open>n\<close> characters, which the stream then has no more.\<close>

definition stream_read :: "nat \<Rightarrow> tokenizer \<Rightarrow> string \<times> tokenizer" where
  "stream_read n s = (take n (stream s), s\<lparr>stream := drop n (stream s)\<rparr>)"

definition peek_byte :: "nat \<Rightarrow> tokenizer \<Rightarrow> string \<times> tokenizer" where
  "peek_byte n s =
     (let bytes_needed = int n - int (length (buffer s));
          s' = (if bytes_needed > 0
                then (case stream_read (nat bytes_needed) s of
                        (b, s1) \<Rightarrow> s1\<lparr>buffer := buffer s1 @ b\<rparr>)
                else s)
      in (take n (buffer s'), s'))"

text \<open>
  \<open>_pop_byte\<close>: with fewer than \<open>n\<close> characters buffered, the source returns the buffer
  and one more character of the stream and leaves the buffer as it is.
\<close>

definition pop_byte :: "nat \<Rightarrow> tokenizer \<Rightarrow> string \<times> tokenizer" where
  "pop_byte n s =
     (if length (buffer s) < n
      then (case stream_read 1 s of (b, s1) \<Rightarrow> (buffer s @ b, s1))
      else (take n (buffer s), s\<lparr>buffer := drop n (buffer s)\<rparr>))"

definition remaining :: "tokenizer \<Rightarrow> nat" where
  "remaining s = length (buffer s) + length (stream s)"

lemma remaining_peek_byte [simp]: "remaining (snd (peek_byte n s)) = remaining s"
  by (auto simp: peek_byte_def stream_read_def remaining_def Let_def min_def)

lemma buffer_peek_byte_empty:
  "fst (peek_byte n s) = [] \<Longrightarrow> 0 < n \<Longrightarrow> remaining s = 0"
  by (auto simp: peek_byte_def stream_read_def remaining_def Let_def split: if_splits)

lemma fst_peek_byte: "fst (peek_byte n s) = take n (buffer (snd (peek_byte n s)))"
  by (simp add: peek_byte_def Let_def)

lemma remaining_pop_byte:
  "n \<le> length (buffer s) \<Longrightarrow> remaining (snd (pop_byte n s)) = remaining s - n"
  by (simp add: pop_byte_def remaining_def)

lemma remaining_pop_byte_le: "remaining (snd (pop_byte n s)) \<le> remaining s"
  by (simp add: pop_byte_def remaining_def stream_read_def)

text \<open>The loop of \<open>peek\<close> that skips leading spaces and tabs.\<close>

function skip_whitespace :: "tokenizer \<Rightarrow> tokenizer" where
  "skip_whitespace s =
     (case peek_byte 1 s of
        (c, s1) \<Rightarrow>
          if c = '' '' then skip_whitespace (snd (pop_byte 1 s1))
          else (case peek_byte 1 s1 of
                  (c', s2) \<Rightarrow>
                    if c' = [CHR 0x09] then skip_whitespace (snd (pop_byte 1 s2)) else s2))"
  by pat_completeness auto

lemma pop_after_peek:
  assumes "(c, s1) = peek_byte n s" "c \<noteq> []" "(b, s2) = pop_byte 1 s1"
  shows "remaining s2 < remaining s"
proof -
  have "buffer s1 \<noteq> []"
    using assms(1,2) fst_peek_byte [of n s] by (cases "peek_byte n s") auto
  then have "remaining (snd (pop_byte 1 s1)) < remaining s1"
    by (cases "buffer s1") (simp_all add: pop_byte_def remaining_def)
  moreover have "remaining s1 = remaining s"
    using assms(1) remaining_peek_byte [of n s] by (cases "peek_byte n s") auto
  moreover have "s2 = snd (pop_byte 1 s1)"
    using assms(3) by (cases "pop_byte 1 s1") auto
  ultimately show ?thesis by simp
qed

lemma peek_byte_remaining_eq: "(c, s1) = peek_byte n s \<Longrightarrow> remaining s1 = remaining s"
  using remaining_peek_byte [of n s] by (cases "peek_byte n s") auto

termination skip_whitespace
proof (relation "measure remaining", goal_cases)
  case 1
  show ?case by simp
next
  case (2 s c s1)
  then show ?case
    using pop_after_peek [of c s1 1 s "fst (pop_byte 1 s1)" "snd (pop_byte 1 s1)"] by simp
next
  case (3 s c s1 c' s2)
  have "remaining s1 = remaining s"
    using 3(1) by (rule peek_byte_remaining_eq)
  moreover have "remaining (snd (pop_byte 1 s2)) < remaining s1"
    using 3 pop_after_peek [of c' s2 1 s1 "fst (pop_byte 1 s2)" "snd (pop_byte 1 s2)"] by simp
  ultimately show ?case by simp
qed

declare skip_whitespace.simps [simp del]

text \<open>
  The test \<open>self.prev_token is None or isinstance(self.prev_token, OperatorToken)\<close> that
  decides between the unary and the binary reading of \<open>+\<close> and \<open>-\<close>.
\<close>

definition unary_context :: "Token option \<Rightarrow> bool" where
  "unary_context p = (case p of None \<Rightarrow> True | Some t \<Rightarrow> is_OperatorToken t)"

text \<open>
  The branches of the main loop of \<open>peek\<close> that set \<open>ret\<close>, in the order of the
  source: \<open>c\<close> is the look-ahead of up to three characters (not empty), \<open>c0\<close> its
  first character and \<open>prev\<close> the field \<open>prev_token\<close>. \<open>OperatorToken(c)\<close> for a string
  \<open>c\<close> is the entry of \<open>OPERATORS_BY_NAME\<close> under \<open>c\<close>. \<open>None\<close>: no branch applies.
\<close>

definition match_token :: "string \<Rightarrow> char \<Rightarrow> Token option \<Rightarrow> Token option" where
  "match_token c c0 prev =
     (case OPERATORS_BY_NAME c of
        Some op \<Rightarrow> Some (OperatorToken op)
      | None \<Rightarrow>
     (case OPERATORS_BY_NAME (take 2 c) of
        Some op \<Rightarrow> Some (OperatorToken op)
      | None \<Rightarrow>
     (case OPERATORS_BY_NAME [c0] of
        Some op \<Rightarrow>
          if c0 = CHR ''+'' then
            (if unary_context prev then Some (OperatorToken UNARY_PLUS)
             else Some (OperatorToken ADDITION))
          else if c0 = CHR ''-'' then
            (if unary_context prev then Some (OperatorToken UNARY_MINUS)
             else Some (OperatorToken SUBTRACTION))
          else Some (OperatorToken op)
      | None \<Rightarrow>
          if c0 = CHR ''('' then Some OpenParen
          else if c0 = CHR '')'' then Some CloseParen
          else if c0 = CHR ''['' then Some OpenBracket
          else if c0 = CHR '']'' then Some CloseBracket
          else None)))"

text \<open>
  The main loop of \<open>peek\<close>, \<open>while ret is None\<close>, started with the current \<open>operand\<close>. It
  returns \<open>ret\<close>, \<open>operand\<close> and the tokenizer as they are when the loop is left.
\<close>

function peek_loop ::
  "string option \<Rightarrow> tokenizer \<Rightarrow> Token option \<times> string option \<times> tokenizer" where
  "peek_loop operand s =
     (case peek_byte 3 s of
        (c, s1) \<Rightarrow>
          (case c of
             [] \<Rightarrow> (None, operand, s1)
           | c0 # _ \<Rightarrow>
               (case operand of
                  Some opd \<Rightarrow>
                    if c0 \<in> IDENTIFIER_BYTES
                    then (case pop_byte 1 s1 of (b, s2) \<Rightarrow> peek_loop (Some (opd @ b)) s2)
                    else (None, operand, s1)
                | None \<Rightarrow>
                    (case match_token c c0 (prev_token s1) of
                       Some r \<Rightarrow> (Some r, None, s1)
                     | None \<Rightarrow>
                         if c0 = CHR '' '' \<or> c0 = CHR 0x09 then (None, None, s1)
                         else (case pop_byte 1 s1 of (b, s2) \<Rightarrow> peek_loop (Some b) s2)))))"
  by pat_completeness auto
termination
  by (relation "measure (\<lambda>(operand, s). remaining s)")
     (auto dest: pop_after_peek)

declare peek_loop.simps [simp del]

text \<open>
  The classification of a completed operand at the end of \<open>peek\<close>. Only the decimal
  conversion sits in a \<open>try\<close>; a failing conversion of a prefixed operand raises.
\<close>

definition classify_operand :: "string \<Rightarrow> error + Token" where
  "classify_operand operand =
     (if take 2 operand = ''0x'' then
        (case py_int 16 operand of
           None \<Rightarrow> Inl ValueError | Some v \<Rightarrow> Inr (IntegerToken operand v))
      else if take 2 operand = ''0o'' then
        (case py_int 8 operand of
           None \<Rightarrow> Inl ValueError | Some v \<Rightarrow> Inr (IntegerToken operand v))
      else if take 2 operand = ''0b'' then
        (case py_int 2 operand of
           None \<Rightarrow> Inl ValueError | Some v \<Rightarrow> Inr (IntegerToken operand v))
      else
        (case py_int 10 operand of
           Some v \<Rightarrow> Inr (IntegerToken operand v)
         | None \<Rightarrow> Inr (IdentifierToken operand)))"

text \<open>
  \<open>Tokenizer.peek\<close>: the token (or \<open>None\<close> at the end of the input), or the exception
  raised, with the tokenizer as the call leaves it. The source never assigns
  \<open>self._next_token\<close> in \<open>peek\<close>.
\<close>

definition peek :: "tokenizer \<Rightarrow> (error + Token option) \<times> tokenizer" where
  "peek s =
     (case next_token s of
        Some t \<Rightarrow> (Inr (Some t), s)
      | None \<Rightarrow>
          (case peek_loop None (skip_whitespace s) of
             (ret, operand, s1) \<Rightarrow>
               (case operand of
                  Some opd \<Rightarrow>
                    (case classify_operand opd of
                       Inl e \<Rightarrow> (Inl e, s1)
                     | Inr t \<Rightarrow> (Inr (Some t), s1))
                | None \<Rightarrow>
                    (case ret of
                       Some r \<Rightarrow> (Inr (Some r), snd (pop_byte (length (raw_token r)) s1))
                     | None \<Rightarrow> (Inr None, s1)))))"

definition has_next :: "tokenizer \<Rightarrow> (error + bool) \<times> tokenizer" where
  "has_next s = (case peek s of (Inl e, s1) \<Rightarrow> (Inl e, s1) | (Inr r, s1) \<Rightarrow> (Inr (r \<noteq> None), s1))"

text \<open>\<open>Tokenizer.next\<close>.\<close>

definition tokenizer_next :: "tokenizer \<Rightarrow> (error + Token option) \<times> tokenizer" where
  "tokenizer_next s =
     (case peek s of
        (Inl e, s1) \<Rightarrow> (Inl e, s1)
      | (Inr ret, s1) \<Rightarrow> (Inr ret, s1\<lparr>next_token := None, prev_token := ret\<rparr>))"

text \<open>The input not yet consumed: what is buffered, then what the stream still holds.\<close>

definition pending :: "tokenizer \<Rightarrow> string" where
  "pending s = buffer s @ stream s"

lemma peek_byte_pending:
  "peek_byte n s = (c, s1) \<Longrightarrow>
     c = take n (pending s) \<and> pending s1 = pending s \<and> c = take n (buffer s1)
     \<and> next_token s1 = next_token s \<and> prev_token s1 = prev_token s"
  by (auto simp: peek_byte_def stream_read_def pending_def Let_def split: if_splits)

lemma pop_byte_pending:
  "pop_byte n s = (b, s1) \<Longrightarrow> n \<le> length (buffer s) \<Longrightarrow>
     b = take n (pending s) \<and> pending s1 = drop n (pending s)
     \<and> next_token s1 = next_token s \<and> prev_token s1 = prev_token s"
  by (auto simp: pop_byte_def pending_def)

lemma OPERATORS_BY_NAME_eq:
  "OPERATORS_BY_NAME =
     map_of [(''__getitem__'', GETITEM), (''?'', TERNARY_CONDITIONAL), ('':'', TERNARY_ELSE),
       (''or'', LOGICAL_OR), (''and'', LOGICAL_AND), (''|'', BITWISE_OR), (''^'', BITWISE_XOR),
       (''&'', BITWISE_AND), (''!='', NOT_EQUAL), (''=='', EQUALS), (''>='', GREATER_THAN_EQUAL),
       (''<='', LESS_THAN_EQUAL), (''>'', GREATER_THAN), (''<'', LESS_THAN),
       (''>>'', BITWISE_RIGHT_SHIFT), (''<<'', BITWISE_LEFT_SHIFT), (''-'', SUBTRACTION),
       (''+'', ADDITION), (''%'', REMAINDER), (''/'', DIVISION), (''*'', MULTIPLICATION),
       (''~'', BITWISE_NOT), (''not'', LOGICAL_NOT), (''.'', MEMBER_ACCESS), (''::'', ENUM_ACCESSOR)]"
  by (simp add: OPERATORS_BY_NAME_def all_operators_def Operator_init_def)

lemma OPERATORS_BY_NAME_token:
  "OPERATORS_BY_NAME k = Some op \<Longrightarrow> token (attrs op) = k \<and> k \<noteq> [] \<and> length k \<le> 11"
  unfolding OPERATORS_BY_NAME_eq
  by (auto simp: Operator_init_def split: if_splits)


lemma remaining_pending: "remaining s = length (pending s)"
  by (simp add: remaining_def pending_def)

lemma skip_whitespace_pending:
  "pending (skip_whitespace s) = dropWhile (\<lambda>c. c = CHR '' '' \<or> c = CHR 0x09) (pending s)
   \<and> next_token (skip_whitespace s) = next_token s
   \<and> prev_token (skip_whitespace s) = prev_token s"
proof (induction s rule: skip_whitespace.induct)
  case (1 s)
  obtain c s1 where p1: "peek_byte 1 s = (c, s1)" by (cases "peek_byte 1 s")
  obtain c' s2 where p2: "peek_byte 1 s1 = (c', s2)" by (cases "peek_byte 1 s1")
  note f1 = peek_byte_pending [OF p1]
  note f2 = peek_byte_pending [OF p2]
  show ?case
  proof (cases "c = '' ''")
    case True
    obtain b s3 where p3: "pop_byte 1 s1 = (b, s3)" by (cases "pop_byte 1 s1")
    have len: "1 \<le> length (buffer s1)"
      using f1 True by (cases "buffer s1") auto
    note f3 = pop_byte_pending [OF p3 len]
    have ih: "pending (skip_whitespace s3) = dropWhile (\<lambda>c. c = CHR '' '' \<or> c = CHR 0x09) (pending s3)
       \<and> next_token (skip_whitespace s3) = next_token s3
       \<and> prev_token (skip_whitespace s3) = prev_token s3"
      using "1.IH"(1) [OF p1 [symmetric] True] p3 by simp
    have "skip_whitespace s = skip_whitespace s3"
      using p1 p3 True by (subst skip_whitespace.simps) simp
    moreover obtain rest where ps: "pending s = CHR '' '' # rest"
      using f1 True by (cases "pending s") auto
    moreover have "pending s3 = rest" "next_token s3 = next_token s" "prev_token s3 = prev_token s"
      using f1 f3 ps by simp_all
    ultimately show ?thesis using ih by simp
  next
    case False
    show ?thesis
    proof (cases "c' = [CHR 0x09]")
      case True
      obtain b s3 where p3: "pop_byte 1 s2 = (b, s3)" by (cases "pop_byte 1 s2")
      have len: "1 \<le> length (buffer s2)"
        using f2 True by (cases "buffer s2") auto
      note f3 = pop_byte_pending [OF p3 len]
      have ih: "pending (skip_whitespace s3) = dropWhile (\<lambda>c. c = CHR '' '' \<or> c = CHR 0x09) (pending s3)
         \<and> next_token (skip_whitespace s3) = next_token s3
         \<and> prev_token (skip_whitespace s3) = prev_token s3"
        using "1.IH"(2) [OF p1 [symmetric] False p2 [symmetric] True] p3 by simp
      have "skip_whitespace s = skip_whitespace s3"
        using p1 p2 p3 True False by (subst skip_whitespace.simps) simp
      moreover obtain rest where ps: "pending s = CHR 0x09 # rest"
        using f1 f2 True by (cases "pending s") auto
      moreover have "pending s3 = rest" "next_token s3 = next_token s" "prev_token s3 = prev_token s"
        using f1 f2 f3 ps by simp_all
      ultimately show ?thesis using ih by simp
    next
      case c'F: False
      have "skip_whitespace s = s2"
        using p1 p2 False c'F by (subst skip_whitespace.simps) simp
      moreover have "dropWhile (\<lambda>c. c = CHR '' '' \<or> c = CHR 0x09) (pending s) = pending s"
        using f1 f2 False c'F by (cases "pending s") auto
      ultimately show ?thesis using f1 f2 by simp
    qed
  qed
qed

lemma match_token_facts:
  "match_token c c0 prev = Some r \<Longrightarrow> c = c0 # cs \<Longrightarrow>
     raw_token r \<noteq> [] \<and> length (raw_token r) \<le> length c"
  unfolding match_token_def
  by (auto split: option.splits if_splits dest!: OPERATORS_BY_NAME_token simp: Operator_init_def)

lemma peek_loop_facts:
  "peek_loop operand s = (ret, opd', s') \<Longrightarrow>
     remaining s' \<le> remaining s
     \<and> (\<forall>r. ret = Some r \<longrightarrow> opd' = None \<and> raw_token r \<noteq> [] \<and> length (raw_token r) \<le> length (buffer s'))
     \<and> (operand = None \<and> opd' \<noteq> None \<longrightarrow> remaining s' < remaining s)
     \<and> (operand \<noteq> None \<longrightarrow> opd' \<noteq> None)"
proof (induction operand s arbitrary: ret opd' s' rule: peek_loop.induct)
  case (1 operand s)
  obtain c s1 where p1: "peek_byte 3 s = (c, s1)" by (cases "peek_byte 3 s")
  note f1 = peek_byte_pending [OF p1]
  have r1: "remaining s1 = remaining s" using f1 by (simp add: remaining_pending)
  show ?case
  proof (cases c)
    case Nil
    then show ?thesis using "1.prems" p1 r1 by (subst (asm) peek_loop.simps) auto
  next
    case (Cons c0 cs)
    have len: "1 \<le> length (buffer s1)" using f1 Cons by (cases "buffer s1") auto
    obtain b s2 where p2: "pop_byte 1 s1 = (b, s2)" by (cases "pop_byte 1 s1")
    note f2 = pop_byte_pending [OF p2 len]
    have r2: "remaining s2 < remaining s"
      using f1 f2 Cons by (cases "pending s") (auto simp: remaining_pending)
    have lenc: "length c \<le> length (buffer s1)" using f1 by (metis length_take min.cobounded1)
    show ?thesis
    proof (cases operand)
      case (Some opd)
      show ?thesis
      proof (cases "c0 \<in> IDENTIFIER_BYTES")
        case True
        have eq: "peek_loop operand s = peek_loop (Some (opd @ b)) s2"
          using p1 p2 Cons Some True by (subst peek_loop.simps) simp
        have "peek_loop (Some (opd @ b)) s2 = (ret, opd', s')"
          using eq "1.prems" by simp
        from "1.IH"(2) [OF p1 [symmetric] Cons Some True p2 [symmetric] this]
        show ?thesis using r2 Some by auto
      next
        case False
        then show ?thesis using "1.prems" p1 Cons Some r1
          by (subst (asm) peek_loop.simps) auto
      qed
    next
      case None
      show ?thesis
      proof (cases "match_token c c0 (prev_token s1)")
        case (Some r)
        have "(ret, opd', s') = (Some r, None, s1)"
          using "1.prems" p1 Cons None Some by (subst (asm) peek_loop.simps) simp
        then show ?thesis using match_token_facts [OF Some Cons] r1 lenc None by auto
      next
        case mNone: None
        show ?thesis
        proof (cases "c0 = CHR '' '' \<or> c0 = CHR 0x09")
          case True
          have "(ret, opd', s') = (None, None, s1)"
            using "1.prems" p1 Cons None mNone True by (subst (asm) peek_loop.simps) auto
          then show ?thesis using r1 None by auto
        next
          case False
          have "peek_loop (Some b) s2 = (ret, opd', s')"
            using "1.prems" p1 p2 Cons None mNone False by (subst (asm) peek_loop.simps) simp
          from "1.IH"(1) [OF p1 [symmetric] Cons None mNone False p2 [symmetric] this]
          show ?thesis using r2 by auto
        qed
      qed
    qed
  qed
qed


lemma skip_whitespace_remaining: "remaining (skip_whitespace s) \<le> remaining s"
  using skip_whitespace_pending [of s] length_dropWhile_le [of _ "pending s"]
  by (simp add: remaining_pending)

lemma peek_consumes:
  assumes "next_token s = None" "peek s = (Inr (Some t), s')"
  shows "remaining s' < remaining s"
proof -
  obtain ret operand s1 where pl: "peek_loop None (skip_whitespace s) = (ret, operand, s1)"
    by (cases "peek_loop None (skip_whitespace s)")
  note f = peek_loop_facts [OF pl]
  show ?thesis
  proof (cases operand)
    case (Some opd)
    then have "s' = s1" using assms pl by (auto simp: peek_def split: sum.splits)
    then show ?thesis using f Some skip_whitespace_remaining [of s] by auto
  next
    case None
    then obtain r where r: "ret = Some r" "s' = snd (pop_byte (length (raw_token r)) s1)"
      using assms pl by (auto simp: peek_def split: option.splits)
    have "remaining s' = remaining s1 - length (raw_token r)" "0 < length (raw_token r)"
      "length (raw_token r) \<le> remaining s1"
      using f r remaining_pop_byte [of "length (raw_token r)" s1] by (auto simp: remaining_def)
    moreover have "remaining s1 \<le> remaining s"
      using f skip_whitespace_remaining [of s] by simp
    ultimately show ?thesis by linarith
  qed
qed

text \<open>
  \<open>Tokenizer.__iter__\<close>: the tokens that \<open>next\<close> returns until it returns \<open>None\<close>. The
  generator is modelled by the list of the tokens it yields and the exception, if any,
  that ends it.
\<close>

function tokenizer_iter :: "tokenizer \<Rightarrow> Token list \<times> error option" where
  "tokenizer_iter s =
     (case tokenizer_next s of
        (Inl e, s1) \<Rightarrow> ([], Some e)
      | (Inr None, s1) \<Rightarrow> ([], None)
      | (Inr (Some t), s1) \<Rightarrow> (case tokenizer_iter s1 of (ts, e) \<Rightarrow> (t # ts, e)))"
  by pat_completeness auto
termination
proof (relation "measure (\<lambda>s. remaining s + (if next_token s = None then 0 else 1))", goal_cases)
  case 1
  show ?case by simp
next
  case (2 s x s1 r t)
  then have n: "tokenizer_next s = (Inr (Some t), s1)" by simp
  obtain s0 where p: "peek s = (Inr (Some t), s0)" and s1: "s1 = s0\<lparr>next_token := None, prev_token := Some t\<rparr>"
    using n by (auto simp: tokenizer_next_def split: prod.splits sum.splits)
  show ?case
  proof (cases "next_token s")
    case None
    then show ?thesis using peek_consumes [OF None p] s1 by (simp add: remaining_def)
  next
    case (Some u)
    then have "s0 = s" using p by (simp add: peek_def)
    then show ?thesis using s1 Some by (simp add: remaining_def)
  qed
qed

declare tokenizer_iter.simps [simp del]

definition tokenize :: "string \<Rightarrow> Token list \<times> error option" where
  "tokenize stream_or_str = tokenizer_iter (Tokenizer stream_or_str)"

section \<open>The shunting-yard converter\<close>

text \<open>
  \<open>infix_to_rpn\<close> keeps the pending operators in the Python list \<open>operators\<close> and uses
  its end as the top of a stack. Here the stack is a list with the top first:
  \<open>operators[-1]\<close> is the head, \<open>operators.pop()\<close> removes it and
  \<open>operators.append(token)\<close> puts \<open>token\<close> in front. Each function returns the tokens
  it yields, in order, and the stack it leaves, or the exception raised.
\<close>

text \<open>
  \<open>while not isinstance(operators[-1], OpenParen): yield operators.pop()\<close>, and the same
  loop for \<open>OpenBracket\<close>; \<open>operators[-1]\<close> on an empty list raises \<open>IndexError\<close>.
\<close>

fun pop_until_open :: "Token \<Rightarrow> Token list \<Rightarrow> error + (Token list \<times> Token list)" where
  "pop_until_open opening [] = Inl IndexError"
| "pop_until_open opening (topmost # operators) =
     (if topmost = opening then Inr ([], topmost # operators)
      else (case pop_until_open opening operators of
              Inl e \<Rightarrow> Inl e
            | Inr (yielded, operators') \<Rightarrow> Inr (topmost # yielded, operators')))"

text \<open>
  The loop of the \<open>OperatorToken\<close> branch. Its condition reads \<open>operators[-1].op\<close> as
  soon as the stack is not empty and its top is not an \<open>OpenParen\<close>; only an
  \<open>OperatorToken\<close> has the attribute \<open>op\<close>.
\<close>

fun pop_operators :: "Operator \<Rightarrow> Token list \<Rightarrow> error + (Token list \<times> Token list)" where
  "pop_operators op [] = Inr ([], [])"
| "pop_operators op (topmost # operators) =
     (if topmost = OpenParen then Inr ([], topmost # operators)
      else (case topmost of
              OperatorToken top_op \<Rightarrow>
                if priority (attrs top_op) < priority (attrs op)
                   \<or> (priority (attrs top_op) = priority (attrs op)
                        \<and> left_associative (attrs top_op))
                then (case pop_operators op operators of
                        Inl e \<Rightarrow> Inl e
                      | Inr (yielded, operators') \<Rightarrow> Inr (topmost # yielded, operators'))
                else Inr ([], topmost # operators)
            | _ \<Rightarrow> Inl AttributeError))"

text \<open>The body of \<open>for token in tokens\<close>.\<close>

definition rpn_step :: "Token \<Rightarrow> Token list \<Rightarrow> error + (Token list \<times> Token list)" where
  "rpn_step tok operators =
     (case tok of
        OpenParen \<Rightarrow> Inr ([], tok # operators)
      | OpenBracket \<Rightarrow> Inr ([], tok # operators)
      | CloseParen \<Rightarrow>
          (case pop_until_open OpenParen operators of
             Inl e \<Rightarrow> Inl e
           | Inr (yielded, operators') \<Rightarrow>
               Inr (yielded,
                    case operators' of
                      topmost # rest \<Rightarrow> if topmost = OpenParen then rest else operators'
                    | [] \<Rightarrow> operators'))
      | CloseBracket \<Rightarrow>
          (case pop_until_open OpenBracket operators of
             Inl e \<Rightarrow> Inl e
           | Inr (yielded, operators') \<Rightarrow>
               Inr (yielded @ [OperatorToken GETITEM],
                    case operators' of
                      topmost # rest \<Rightarrow> if topmost = OpenBracket then rest else operators'
                    | [] \<Rightarrow> operators'))
      | OperatorToken op \<Rightarrow>
          (case pop_operators op operators of
             Inl e \<Rightarrow> Inl e
           | Inr (yielded, operators') \<Rightarrow> Inr (yielded, tok # operators'))
      | _ \<Rightarrow> Inr ([tok], operators))"

fun rpn_loop :: "Token list \<Rightarrow> Token list \<Rightarrow> error + (Token list \<times> Token list)" where
  "rpn_loop [] operators = Inr ([], operators)"
| "rpn_loop (tok # toks) operators =
     (case rpn_step tok operators of
        Inl e \<Rightarrow> Inl e
      | Inr (yielded, operators') \<Rightarrow>
          (case rpn_loop toks operators' of
             Inl e \<Rightarrow> Inl e
           | Inr (yielded', operators'') \<Rightarrow> Inr (yielded @ yielded', operators'')))"

text \<open>The final \<open>while operators\<close>.\<close>

fun rpn_drain :: "Token list \<Rightarrow> error + Token list" where
  "rpn_drain [] = Inr []"
| "rpn_drain (topmost # operators) =
     (if topmost = OpenParen \<or> topmost = CloseParen
      then Inl (RuntimeError Mismatched_parenthesis)
      else if topmost = OpenBracket \<or> topmost = CloseBracket
      then Inl (RuntimeError Mismatched_brackets)
      else (case rpn_drain operators of
              Inl e \<Rightarrow> Inl e
            | Inr yielded \<Rightarrow> Inr (topmost # yielded)))"

text \<open>
  \<open>infix_to_rpn\<close> reads its tokens from a generator: an exception of the tokenizer
  arrives after the tokens before it have been processed, and before the final loop.
  The result is the complete postfix sequence, or the exception that ends the generator.
\<close>

definition infix_to_rpn :: "Token list \<times> error option \<Rightarrow> error + Token list" where
  "infix_to_rpn input =
     (case input of
        (toks, failure) \<Rightarrow>
          (case rpn_loop toks [] of
             Inl e \<Rightarrow> Inl e
           | Inr (yielded, operators) \<Rightarrow>
               (case failure of
                  Some e \<Rightarrow> Inl e
                | None \<Rightarrow>
                    (case rpn_drain operators of
                       Inl e \<Rightarrow> Inl e
                     | Inr yielded' \<Rightarrow> Inr (yielded @ yielded')))))"

datatype Expression = Expression (tokens: "Token list")

text \<open>\<open>parse\<close>: \<open>Expression(infix_to_rpn(tokenize(expression_str)))\<close>.\<close>

definition parse :: "string \<Rightarrow> error + Expression" where
  "parse expression_str =
     (case infix_to_rpn (tokenize expression_str) of
        Inl e \<Rightarrow> Inl e
      | Inr rpn \<Rightarrow> Inr (Expression rpn))"

section \<open>Python's operations on values\<close>

text \<open>\<open>isinstance(v, int)\<close>, with the integer a value has then (\<open>bool\<close> is a subclass of \<open>int\<close>).\<close>

fun int_of :: "pyval \<Rightarrow> int option" where
  "int_of (VInt i) = Some i"
| "int_of (VBool b) = Some (if b then 1 else 0)"
| "int_of v = None"

fun is_exception :: "pyval \<Rightarrow> bool" where
  "is_exception (VExc e) = True"
| "is_exception v = False"

text \<open>
  \<open>bool(v)\<close>. A token is true when its raw text is not empty (\<open>Token.__len__\<close>); an
  exception object is true.
\<close>

fun truthy :: "pyval \<Rightarrow> bool" where
  "truthy VNone = False"
| "truthy (VInt i) = (i \<noteq> 0)"
| "truthy (VBool b) = b"
| "truthy (VStr s) = (s \<noteq> [])"
| "truthy (VBytes bs) = (bs \<noteq> [])"
| "truthy (VDict d) = (d \<noteq> [])"
| "truthy (VTuple xs) = (xs \<noteq> [])"
| "truthy (VTok t) = (length (raw_token t) \<noteq> 0)"
| "truthy (VExc e) = True"

text \<open>\<open>int.from_bytes(v, byteorder='big')\<close>.\<close>

definition from_bytes_big :: "8 word list \<Rightarrow> int" where
  "from_bytes_big v = foldl (\<lambda>acc b. acc * 256 + uint b) 0 v"

text \<open>
  \<open>bytes(v)\<close> for a value that is neither an integer nor text nor a byte sequence: an
  iterable of integers in \<open>range(256)\<close> converts (a mapping iterates over its keys, which
  are strings), anything else raises \<open>TypeError\<close>, an integer out of range
  \<open>ValueError\<close>.
\<close>

fun bytes_of_items :: "pyval list \<Rightarrow> error + 8 word list" where
  "bytes_of_items [] = Inr []"
| "bytes_of_items (x # xs) =
     (case int_of x of
        None \<Rightarrow> Inl TypeError
      | Some i \<Rightarrow>
          if 0 \<le> i \<and> i < 256
          then (case bytes_of_items xs of Inl e \<Rightarrow> Inl e | Inr bs \<Rightarrow> Inr (word_of_int i # bs))
          else Inl ValueError)"

fun py_bytes :: "pyval \<Rightarrow> error + 8 word list" where
  "py_bytes (VTuple xs) = bytes_of_items xs"
| "py_bytes (VDict d) = (if d = [] then Inr [] else Inl TypeError)"
| "py_bytes v = Inl TypeError"

text \<open>The branch of \<open>to_int\<close> for \<open>bytes\<close>, which the final \<open>to_int(bytes(v))\<close> reaches too.\<close>

definition to_int_bytes :: "8 word list \<Rightarrow> int" where
  "to_int_bytes v =
     (if length v = 0 then 0
      else if length v = 1 then uint (v ! 0)
      else from_bytes_big v)"

text \<open>
  \<open>to_int\<close>. For text of length 1, \<open>int(v[0])\<close> parses the character as a decimal
  literal; for longer text \<open>int.from_bytes\<close> raises \<open>TypeError\<close>, outside the \<open>try\<close>.
  The \<open>try\<close> turns a \<open>TypeError\<close> of \<open>bytes(v)\<close> into \<open>ValueError\<close>.
\<close>

fun to_int :: "pyval \<Rightarrow> error + pyval" where
  "to_int (VInt i) = Inr (VInt i)"
| "to_int (VBool b) = Inr (VBool b)"
| "to_int (VBytes v) = Inr (VInt (to_int_bytes v))"
| "to_int (VStr v) =
     (if length v = 0 then Inr (VInt 0)
      else if length v = 1 then
        (case py_int 10 [v ! 0] of None \<Rightarrow> Inl ValueError | Some i \<Rightarrow> Inr (VInt i))
      else Inl TypeError)"
| "to_int v =
     (case py_bytes v of
        Inl TypeError \<Rightarrow> Inl ValueError
      | Inl e \<Rightarrow> Inl e
      | Inr bs \<Rightarrow> Inr (VInt (to_int_bytes bs)))"

text \<open>
  Integer arithmetic on the results of \<open>to_int\<close>, which are integers or booleans.
  Python's integers are unbounded, as \<open>int\<close> is; the memory a huge shift would need is
  not modelled.
\<close>

definition int_op :: "(int \<Rightarrow> int \<Rightarrow> error + int) \<Rightarrow> pyval \<Rightarrow> pyval \<Rightarrow> error + pyval" where
  "int_op f x y =
     (case (int_of x, int_of y) of
        (Some i, Some j) \<Rightarrow> (case f i j of Inl e \<Rightarrow> Inl e | Inr k \<Rightarrow> Inr (VInt k))
      | _ \<Rightarrow> Inl TypeError)"

text \<open>\<open>&\<close>, \<open>^\<close> and \<open>|\<close> of two booleans are booleans.\<close>

definition bit_op ::
  "(bool \<Rightarrow> bool \<Rightarrow> bool) \<Rightarrow> (int \<Rightarrow> int \<Rightarrow> int) \<Rightarrow> pyval \<Rightarrow> pyval \<Rightarrow> error + pyval" where
  "bit_op fb fi x y =
     (case (x, y) of
        (VBool p, VBool q) \<Rightarrow> Inr (VBool (fb p q))
      | _ \<Rightarrow> int_op (\<lambda>i j. Inr (fi i j)) x y)"

definition py_floordiv :: "int \<Rightarrow> int \<Rightarrow> error + int" where
  "py_floordiv i j = (if j = 0 then Inl ZeroDivisionError else Inr (i div j))"

definition py_mod :: "int \<Rightarrow> int \<Rightarrow> error + int" where
  "py_mod i j = (if j = 0 then Inl ZeroDivisionError else Inr (i mod j))"

definition py_lshift :: "int \<Rightarrow> int \<Rightarrow> error + int" where
  "py_lshift i j = (if j < 0 then Inl ValueError else Inr (push_bit (nat j) i))"

definition py_rshift :: "int \<Rightarrow> int \<Rightarrow> error + int" where
  "py_rshift i j = (if j < 0 then Inl ValueError else Inr (drop_bit (nat j) i))"

text \<open>\<open>f(to_int(a), to_int(b))\<close> and \<open>f(to_int(a))\<close>, the left operand converted first.\<close>

definition coerced2 :: "(pyval \<Rightarrow> pyval \<Rightarrow> error + pyval) \<Rightarrow> pyval \<Rightarrow> pyval \<Rightarrow> error + pyval" where
  "coerced2 f a b =
     (case to_int a of
        Inl e \<Rightarrow> Inl e
      | Inr x \<Rightarrow> (case to_int b of Inl e \<Rightarrow> Inl e | Inr y \<Rightarrow> f x y))"

definition coerced1 :: "(int \<Rightarrow> int) \<Rightarrow> pyval \<Rightarrow> error + pyval" where
  "coerced1 f a =
     (case to_int a of
        Inl e \<Rightarrow> Inl e
      | Inr x \<Rightarrow> (case int_of x of Some i \<Rightarrow> Inr (VInt (f i)) | None \<Rightarrow> Inl TypeError))"

text \<open>\<open>a + b\<close>.\<close>

definition py_add :: "pyval \<Rightarrow> pyval \<Rightarrow> error + pyval" where
  "py_add a b =
     (case (int_of a, int_of b) of
        (Some i, Some j) \<Rightarrow> Inr (VInt (i + j))
      | _ \<Rightarrow>
          (case (a, b) of
             (VStr s, VStr t) \<Rightarrow> Inr (VStr (s @ t))
           | (VBytes s, VBytes t) \<Rightarrow> Inr (VBytes (s @ t))
           | (VTuple xs, VTuple ys) \<Rightarrow> Inr (VTuple (xs @ ys))
           | _ \<Rightarrow> Inl TypeError))"

text \<open>
  \<open>a == b\<close>. Tokens and exception objects compare by identity, which the values do not
  record: two of them that differ here are different objects, two that agree may or may
  not be the same object, and the result is then \<open>None\<close>.
\<close>

fun py_eq :: "pyval \<Rightarrow> pyval \<Rightarrow> bool option"
  and py_eq_items :: "pyval list \<Rightarrow> pyval list \<Rightarrow> bool option"
  and py_eq_dict :: "(string \<times> pyval) list \<Rightarrow> (string \<times> pyval) list \<Rightarrow> bool option" where
  "py_eq (VInt i) b = (case int_of b of Some j \<Rightarrow> Some (i = j) | None \<Rightarrow> Some False)"
| "py_eq (VBool p) b =
     (case int_of b of Some j \<Rightarrow> Some ((if p then 1 else 0) = j) | None \<Rightarrow> Some False)"
| "py_eq VNone b = Some (b = VNone)"
| "py_eq (VStr s) b = (case b of VStr t \<Rightarrow> Some (s = t) | _ \<Rightarrow> Some False)"
| "py_eq (VBytes s) b = (case b of VBytes t \<Rightarrow> Some (s = t) | _ \<Rightarrow> Some False)"
| "py_eq (VTuple xs) b =
     (case b of
        VTuple ys \<Rightarrow> if length xs \<noteq> length ys then Some False else py_eq_items xs ys
      | _ \<Rightarrow> Some False)"
| "py_eq (VDict d) b =
     (case b of
        VDict d' \<Rightarrow> if length d \<noteq> length d' then Some False else py_eq_dict d d'
      | _ \<Rightarrow> Some False)"
| "py_eq (VTok t) b = (case b of VTok u \<Rightarrow> if t = u then None else Some False | _ \<Rightarrow> Some False)"
| "py_eq (VExc e) b = (case b of VExc f \<Rightarrow> if e = f then None else Some False | _ \<Rightarrow> Some False)"
| "py_eq_items [] ys = Some (ys = [])"
| "py_eq_items (x # xs) ys =
     (case ys of
        [] \<Rightarrow> Some False
      | y # ys' \<Rightarrow>
          (case py_eq x y of
             None \<Rightarrow> None
           | Some False \<Rightarrow> Some False
           | Some True \<Rightarrow> py_eq_items xs ys'))"
| "py_eq_dict [] d' = Some True"
| "py_eq_dict (kv # d) d' =
     (case map_of d' (fst kv) of
        None \<Rightarrow> Some False
      | Some v' \<Rightarrow>
          (case py_eq (snd kv) v' of
             None \<Rightarrow> None
           | Some False \<Rightarrow> Some False
           | Some True \<Rightarrow> py_eq_dict d d'))"


text \<open>
  The ordering comparisons \<open><\<close>, \<open>>\<close>, \<open><=\<close> and \<open>>=\<close>: integers by value, text
  and byte sequences lexicographically, tuples by their first differing items; any other
  pair of operands raises \<open>TypeError\<close>.
\<close>

datatype comparison = Less | Greater | LessEq | GreaterEq

fun seq_less :: "nat list \<Rightarrow> nat list \<Rightarrow> bool" where
  "seq_less [] ys = (ys \<noteq> [])"
| "seq_less (x # xs) [] = False"
| "seq_less (x # xs) (y # ys) = (x < y \<or> (x = y \<and> seq_less xs ys))"

fun seq_compare :: "comparison \<Rightarrow> nat list \<Rightarrow> nat list \<Rightarrow> bool" where
  "seq_compare Less xs ys = seq_less xs ys"
| "seq_compare Greater xs ys = seq_less ys xs"
| "seq_compare LessEq xs ys = (\<not> seq_less ys xs)"
| "seq_compare GreaterEq xs ys = (\<not> seq_less xs ys)"

fun int_compare :: "comparison \<Rightarrow> int \<Rightarrow> int \<Rightarrow> bool" where
  "int_compare Less i j = (i < j)"
| "int_compare Greater i j = (i > j)"
| "int_compare LessEq i j = (i \<le> j)"
| "int_compare GreaterEq i j = (i \<ge> j)"

fun py_compare :: "comparison \<Rightarrow> pyval \<Rightarrow> pyval \<Rightarrow> error + bool"
  and py_compare_items :: "comparison \<Rightarrow> pyval list \<Rightarrow> pyval list \<Rightarrow> error + bool" where
  "py_compare cmp (VInt i) b =
     (case int_of b of Some j \<Rightarrow> Inr (int_compare cmp i j) | None \<Rightarrow> Inl TypeError)"
| "py_compare cmp (VBool p) b =
     (case int_of b of
        Some j \<Rightarrow> Inr (int_compare cmp (if p then 1 else 0) j)
      | None \<Rightarrow> Inl TypeError)"
| "py_compare cmp (VStr s) b =
     (case b of
        VStr t \<Rightarrow> Inr (seq_compare cmp (map of_char s) (map of_char t))
      | _ \<Rightarrow> Inl TypeError)"
| "py_compare cmp (VBytes s) b =
     (case b of
        VBytes t \<Rightarrow> Inr (seq_compare cmp (map unat s) (map unat t))
      | _ \<Rightarrow> Inl TypeError)"
| "py_compare cmp (VTuple xs) b =
     (case b of VTuple ys \<Rightarrow> py_compare_items cmp xs ys | _ \<Rightarrow> Inl TypeError)"
| "py_compare cmp VNone b = Inl TypeError"
| "py_compare cmp (VDict d) b = Inl TypeError"
| "py_compare cmp (VTok t) b = Inl TypeError"
| "py_compare cmp (VExc e) b = Inl TypeError"
| "py_compare_items cmp [] ys =
     Inr (if ys = [] then cmp = LessEq \<or> cmp = GreaterEq else cmp = Less \<or> cmp = LessEq)"
| "py_compare_items cmp (x # xs) ys =
     (case ys of
        [] \<Rightarrow> Inr (cmp = Greater \<or> cmp = GreaterEq)
      | y # ys' \<Rightarrow>
          (case py_eq x y of
             None \<Rightarrow> Inl Outside_model
           | Some True \<Rightarrow> py_compare_items cmp xs ys'
           | Some False \<Rightarrow> py_compare cmp x y))"

text \<open>\<open>a[b]\<close>. A sequence is indexed by an integer, negative ones counting from the end.\<close>

definition index_seq :: "'a list \<Rightarrow> int \<Rightarrow> error + 'a" where
  "index_seq xs i =
     (if 0 \<le> i \<and> i < int (length xs) then Inr (xs ! nat i)
      else if i < 0 \<and> - int (length xs) \<le> i then Inr (xs ! nat (i + int (length xs)))
      else Inl IndexError)"

fun hashable :: "pyval \<Rightarrow> bool" where
  "hashable (VDict d) = False"
| "hashable (VTuple xs) = list_all hashable xs"
| "hashable v = True"

fun getitem :: "pyval \<Rightarrow> pyval \<Rightarrow> error + pyval" where
  "getitem (VDict d) b =
     (if \<not> hashable b then Inl TypeError
      else (case b of
              VStr k \<Rightarrow>
                (case map_of d k of Some v \<Rightarrow> Inr v | None \<Rightarrow> Inl (KeyError (Missing_key b)))
            | _ \<Rightarrow> Inl (KeyError (Missing_key b))))"
| "getitem (VStr s) b =
     (case int_of b of
        Some i \<Rightarrow> (case index_seq s i of Inl e \<Rightarrow> Inl e | Inr c \<Rightarrow> Inr (VStr [c]))
      | None \<Rightarrow> Inl TypeError)"
| "getitem (VBytes s) b =
     (case int_of b of
        Some i \<Rightarrow> (case index_seq s i of Inl e \<Rightarrow> Inl e | Inr c \<Rightarrow> Inr (VInt (uint c)))
      | None \<Rightarrow> Inl TypeError)"
| "getitem (VTuple xs) b =
     (case int_of b of Some i \<Rightarrow> index_seq xs i | None \<Rightarrow> Inl TypeError)"
| "getitem a b = Inl TypeError"

text \<open>\<open>b.name\<close>: only an \<open>IdentifierToken\<close> has the attribute.\<close>

fun name_of :: "pyval \<Rightarrow> error + string" where
  "name_of (VTok (IdentifierToken name)) = Inr name"
| "name_of v = Inl AttributeError"

definition member_access :: "pyval \<Rightarrow> pyval \<Rightarrow> error + pyval" where
  "member_access a b = (case name_of b of Inl e \<Rightarrow> Inl e | Inr name \<Rightarrow> getitem a (VStr name))"

definition compare_op :: "comparison \<Rightarrow> pyval \<Rightarrow> pyval \<Rightarrow> error + pyval" where
  "compare_op cmp a b = (case py_compare cmp a b of Inl e \<Rightarrow> Inl e | Inr r \<Rightarrow> Inr (VBool r))"

text \<open>A call \<open>f(*args)\<close> of a function of one or of two parameters.\<close>

definition call1 :: "(pyval \<Rightarrow> error + pyval) \<Rightarrow> pyval list \<Rightarrow> error + pyval" where
  "call1 f args = (case args of [a] \<Rightarrow> f a | _ \<Rightarrow> Inl TypeError)"

definition call2 :: "(pyval \<Rightarrow> pyval \<Rightarrow> error + pyval) \<Rightarrow> pyval list \<Rightarrow> error + pyval" where
  "call2 f args = (case args of [a, b] \<Rightarrow> f a b | _ \<Rightarrow> Inl TypeError)"

text \<open>The \<open>execute\<close> function of each operator, as the table of the source gives it.\<close>

fun execute :: "Operator \<Rightarrow> pyval list \<Rightarrow> error + pyval" where
  "execute ENUM_ACCESSOR =
     call2 (\<lambda>a b. case name_of b of Inl e \<Rightarrow> Inl e | Inr name \<Rightarrow> getitem a (VStr name))"
| "execute MEMBER_ACCESS = call2 member_access"
| "execute UNARY_PLUS = call1 (\<lambda>a. Inr a)"
| "execute UNARY_MINUS = call1 (coerced1 (\<lambda>i. - i))"
| "execute LOGICAL_NOT = call1 (\<lambda>a. Inr (VBool (\<not> truthy a)))"
| "execute BITWISE_NOT = call1 (coerced1 (\<lambda>i. NOT i))"
| "execute MULTIPLICATION = call2 (coerced2 (int_op (\<lambda>i j. Inr (i * j))))"
| "execute DIVISION = call2 (coerced2 (int_op py_floordiv))"
| "execute REMAINDER = call2 (coerced2 (int_op py_mod))"
| "execute ADDITION = call2 py_add"
| "execute SUBTRACTION = call2 (coerced2 (int_op (\<lambda>i j. Inr (i - j))))"
| "execute BITWISE_LEFT_SHIFT = call2 (coerced2 (int_op py_lshift))"
| "execute BITWISE_RIGHT_SHIFT = call2 (coerced2 (int_op py_rshift))"
| "execute LESS_THAN = call2 (compare_op Less)"
| "execute GREATER_THAN = call2 (compare_op Greater)"
| "execute LESS_THAN_EQUAL = call2 (compare_op LessEq)"
| "execute GREATER_THAN_EQUAL = call2 (compare_op GreaterEq)"
| "execute EQUALS =
     call2 (\<lambda>a b. case py_eq a b of None \<Rightarrow> Inl Outside_model | Some r \<Rightarrow> Inr (VBool r))"
| "execute NOT_EQUAL =
     call2 (\<lambda>a b. case py_eq a b of None \<Rightarrow> Inl Outside_model | Some r \<Rightarrow> Inr (VBool (\<not> r)))"
| "execute BITWISE_AND = call2 (coerced2 (bit_op (\<and>) (AND)))"
| "execute BITWISE_XOR = call2 (coerced2 (bit_op (\<noteq>) (XOR)))"
| "execute BITWISE_OR = call2 (coerced2 (bit_op (\<or>) (OR)))"
| "execute LOGICAL_AND = call2 (\<lambda>a b. Inr (if truthy a then b else a))"
| "execute LOGICAL_OR = call2 (\<lambda>a b. Inr (if truthy a then a else b))"
| "execute TERNARY_ELSE = call2 (\<lambda>a b. Inr (VTuple [a, b]))"
| "execute TERNARY_CONDITIONAL = call2 (\<lambda>a b. getitem b (VBool (\<not> truthy a)))"
| "execute GETITEM = call2 getitem"

section \<open>The evaluator\<close>

type_synonym assignments = "string \<rightharpoonup> pyval"

text \<open>\<open>Expression.get_value\<close>.\<close>

fun get_value :: "pyval \<Rightarrow> assignments \<Rightarrow> error + pyval" where
  "get_value VNone assignments = Inr VNone"
| "get_value (VTok (IntegerToken raw_str v)) assignments = Inr (VInt v)"
| "get_value (VTok (IdentifierToken name)) assignments =
     (case assignments name of
        None \<Rightarrow> Inl (KeyError (Unknown_identifier name))
      | Some v \<Rightarrow> Inr v)"
| "get_value tok assignments = Inr tok"

text \<open>Python's slices \<open>values[-n:]\<close> and \<open>values[:-n]\<close>.\<close>

definition last_n :: "nat \<Rightarrow> 'a list \<Rightarrow> 'a list" where
  "last_n n xs = (if n = 0 then xs else drop (length xs - n) xs)"

definition without_last_n :: "nat \<Rightarrow> 'a list \<Rightarrow> 'a list" where
  "without_last_n n xs = (if n = 0 then [] else take (length xs - n) xs)"

text \<open>
  The loop that builds \<open>args\<close> for an operator, over the pairs of \<open>zip(t.op.expand,
  values[-t.op.arity:])\<close>: it returns \<open>args\<close> and \<open>exception\<close>, or the exception that
  \<open>get_value\<close> raises.
\<close>

fun collect_args ::
  "assignments \<Rightarrow> (bool \<times> pyval) list \<Rightarrow> pyval list \<Rightarrow> pyval option
     \<Rightarrow> error + (pyval list \<times> pyval option)" where
  "collect_args assignments [] args exception = Inr (args, exception)"
| "collect_args assignments ((expand_it, v) # rest) args exception =
     (case (if expand_it then get_value v assignments else Inr v) of
        Inl e \<Rightarrow> Inl e
      | Inr x \<Rightarrow>
          collect_args assignments rest (args @ [x])
            (if is_exception x then Some x else exception))"

text \<open>
  The execution of an operator inside the \<open>try\<close> that \<open>interpret\<close> has for \<open>GETITEM\<close> and
  \<open>MEMBER_ACCESS\<close>: a \<open>KeyError\<close> is replaced by a new \<open>KeyError\<close> naming the two top
  values, any other exception is kept, and both become the result value.
\<close>

definition execute_guarded :: "Operator \<Rightarrow> pyval list \<Rightarrow> pyval list \<Rightarrow> error + pyval" where
  "execute_guarded op args vals =
     (case execute op args of
        Inr r \<Rightarrow> Inr r
      | Inl (KeyError k) \<Rightarrow>
          (case rev vals of
             v1 # v2 # _ \<Rightarrow> Inr (VExc (KeyError (Failed_subscript v2 v1)))
           | _ \<Rightarrow> Inl IndexError)
      | Inl Outside_model \<Rightarrow> Inl Outside_model
      | Inl e \<Rightarrow> Inr (VExc e))"

text \<open>The body of the loop of \<open>interpret\<close> for an \<open>OperatorToken\<close> with operator \<open>op\<close>.\<close>

definition interpret_operator ::
  "assignments \<Rightarrow> pyval list \<Rightarrow> Operator \<Rightarrow> error + pyval list" where
  "interpret_operator assignments vals op =
     (case collect_args assignments
             (zip (expand (attrs op)) (last_n (arity (attrs op)) vals)) [] None of
        Inl e \<Rightarrow> Inl e
      | Inr (args, exception) \<Rightarrow>
          (case (if exception \<noteq> None \<and> op \<noteq> TERNARY_ELSE then exception else None) of
             Some exn \<Rightarrow> Inr (without_last_n (arity (attrs op)) vals @ [exn])
           | None \<Rightarrow>
               (case (if op = GETITEM \<or> op = MEMBER_ACCESS
                      then execute_guarded op args vals
                      else execute op args) of
                  Inl e \<Rightarrow> Inl e
                | Inr r \<Rightarrow>
                    if op = TERNARY_CONDITIONAL
                    then (case get_value r assignments of
                            Inl e \<Rightarrow> Inl e
                          | Inr r' \<Rightarrow> Inr (without_last_n (arity (attrs op)) vals @ [r']))
                    else Inr (without_last_n (arity (attrs op)) vals @ [r]))))"

fun interpret_loop :: "assignments \<Rightarrow> Token list \<Rightarrow> pyval list \<Rightarrow> error + pyval list" where
  "interpret_loop assignments [] vals = Inr vals"
| "interpret_loop assignments (t # ts) vals =
     (case t of
        OperatorToken op \<Rightarrow>
          (case interpret_operator assignments vals op of
             Inl e \<Rightarrow> Inl e
           | Inr vals' \<Rightarrow> interpret_loop assignments ts vals')
      | _ \<Rightarrow> interpret_loop assignments ts (vals @ [VTok t]))"


section \<open>Rendering\<close>

text \<open>\<open>str(i)\<close> for an integer: its decimal digits, after a minus sign when negative.\<close>

function str_nat :: "nat \<Rightarrow> string" where
  "str_nat n =
     (if n < 10 then [char_of (48 + n)]
      else str_nat (n div 10) @ [char_of (48 + n mod 10)])"
  by pat_completeness auto
termination
  by (relation "measure (\<lambda>n. n)") auto

declare str_nat.simps [simp del]

definition str_int :: "int \<Rightarrow> string" where
  "str_int i = (if i < 0 then CHR ''-'' # str_nat (nat (- i)) else str_nat (nat i))"

text \<open>
  \<open>Expression.to_str\<close>. Its list \<open>values\<close> holds text, integers and the parenthesis and
  bracket tokens that reach the last branch; each is kept here as the text that
  \<open>str\<close> gives for it, which is how the f-strings and the final \<open>join\<close> use it
  (a parenthesis or bracket prints as its class name followed by \<open>()\<close>).
\<close>

fun str_token :: "Token \<Rightarrow> string" where
  "str_token OpenParen = ''OpenParen()''"
| "str_token CloseParen = ''CloseParen()''"
| "str_token OpenBracket = ''OpenBracket()''"
| "str_token CloseBracket = ''CloseBracket()''"
| "str_token t = raw_token t"

definition to_str_operator :: "Operator \<Rightarrow> string list \<Rightarrow> error + string list" where
  "to_str_operator op vals =
     (let args = last_n (arity (attrs op)) vals;
          vals' = without_last_n (arity (attrs op)) vals
      in if length args \<noteq> arity (attrs op) then Inl NotImplementedError
         else if arity (attrs op) = 2 then
           Inr (vals' @ [''('' @ args ! (length args - 2) @ token (attrs op)
                          @ args ! (length args - 1) @ '')''])
         else if arity (attrs op) = 1 then
           (if left_associative (attrs op)
            then Inr (vals' @ [args ! (length args - 1) @ token (attrs op)])
            else Inr (vals' @ [token (attrs op) @ args ! (length args - 1)]))
         else Inr vals')"

fun to_str_loop :: "Token list \<Rightarrow> string list \<Rightarrow> error + string list" where
  "to_str_loop [] vals = Inr vals"
| "to_str_loop (t # ts) vals =
     (case t of
        OperatorToken op \<Rightarrow>
          (case to_str_operator op vals of
             Inl e \<Rightarrow> Inl e
           | Inr vals' \<Rightarrow> to_str_loop ts vals')
      | IdentifierToken name \<Rightarrow> to_str_loop ts (vals @ [name])
      | IntegerToken raw_str v \<Rightarrow> to_str_loop ts (vals @ [str_int v])
      | _ \<Rightarrow> to_str_loop ts (vals @ [str_token t]))"

definition to_str :: "Expression \<Rightarrow> error + string" where
  "to_str self =
     (case to_str_loop (tokens self) [] of
        Inl e \<Rightarrow> Inl e
      | Inr vals \<Rightarrow> Inr (concat vals))"

section \<open>\<open>Expression.interpret\<close>\<close>

text \<open>
  The first statement of \<open>interpret\<close> formats a log message with \<open>self.to_str\<close>, whose
  exception, if it raises, leaves \<open>interpret\<close>; the logger itself has no effect on the
  result. \<open>assignments\<close> defaults to \<open>None\<close>, which stands for the empty mapping.
\<close>

definition Expression_interpret :: "Expression \<Rightarrow> assignments option \<Rightarrow> error + pyval" where
  "Expression_interpret self assignments_arg =
     (case to_str self of
        Inl e \<Rightarrow> Inl e
      | Inr message \<Rightarrow>
          (let assignments = (case assignments_arg of None \<Rightarrow> Map.empty | Some a \<Rightarrow> a)
           in case interpret_loop assignments (tokens self) [] of
                Inl e \<Rightarrow> Inl e
              | Inr vals \<Rightarrow>
                  if length vals \<noteq> 1
                  then Inl (RuntimeError (Unexpected_extra_tokens (butlast vals)))
                  else (case (case vals ! 0 of
                                VTok (IdentifierToken name) \<Rightarrow> get_value (vals ! 0) assignments
                              | v \<Rightarrow> Inr v) of
                          Inl e \<Rightarrow> Inl e
                        | Inr ret \<Rightarrow> (case ret of VExc e \<Rightarrow> Inl e | _ \<Rightarrow> Inr ret))))"

text \<open>\<open>parse(expression_str).interpret(assignments)\<close>.\<close>

definition parse_interpret :: "string \<Rightarrow> assignments option \<Rightarrow> error + pyval" where
  "parse_interpret expression_str assignments_arg =
     (case parse expression_str of
        Inl e \<Rightarrow> Inl e
      | Inr expression \<Rightarrow> Expression_interpret expression assignments_arg)"

section \<open>Notions of the specification\<close>

text \<open>
  The kinds of value that the specification gives for the result of \<open>interpret\<close>:
  integer, byte or text sequence, mapping, boolean.
\<close>

definition is_data_value :: "pyval \<Rightarrow> bool" where
  "is_data_value v =
     (case v of VInt i \<Rightarrow> True | VBool b \<Rightarrow> True | VStr s \<Rightarrow> True | VBytes bs \<Rightarrow> True
      | VDict d \<Rightarrow> True | _ \<Rightarrow> False)"

text \<open>
  The numeric forms of the specification: a character is a digit of a base when its
  digit value is below the base, and a digit string has the positional value of its
  digits, the most significant first.
\<close>

definition is_digit_of :: "nat \<Rightarrow> char \<Rightarrow> bool" where
  "is_digit_of base c = (case digit_value c of Some d \<Rightarrow> d < base | None \<Rightarrow> False)"

definition digits_value :: "nat \<Rightarrow> string \<Rightarrow> int" where
  "digits_value base ds =
     foldl (\<lambda>acc c. acc * int base + (case digit_value c of Some d \<Rightarrow> int d | None \<Rightarrow> 0)) 0 ds"

text \<open>
  The big-endian unsigned value of a byte sequence, the first byte the most significant.
\<close>

fun big_endian :: "8 word list \<Rightarrow> int" where
  "big_endian [] = 0"
| "big_endian (b # bs) = uint b * 256 ^ length bs + big_endian bs"

text \<open>The arithmetic and bitwise operators whose \<open>execute\<close> converts both operands.\<close>

definition coercing_operators :: "Operator set" where
  "coercing_operators =
     {MULTIPLICATION, DIVISION, REMAINDER, SUBTRACTION, BITWISE_LEFT_SHIFT,
      BITWISE_RIGHT_SHIFT, BITWISE_AND, BITWISE_XOR, BITWISE_OR}"


section \<open>The claims\<close>

text \<open>
  C3. The operator branch of the converter stops popping at an open parenthesis, but not
  at an open bracket: with an \<open>OpenBracket\<close> on top of the operator stack the loop
  condition reads the attribute \<open>op\<close> of the bracket and raises \<open>AttributeError\<close>. So
  \<open>a[b + c]\<close>, a binary operator inside brackets, does not convert to postfix.
\<close>

theorem operator_inside_brackets_raises:
  "tokenize ''a[b + c]'' =
     ([IdentifierToken ''a'', OpenBracket, IdentifierToken ''b'', OperatorToken ADDITION,
       IdentifierToken ''c'', CloseBracket], None)
   \<and> pop_operators ADDITION [OpenBracket] = Inl AttributeError
   \<and> parse ''a[b + c]'' = Inl AttributeError"
  by code_simp

lemma pop_byte_prev_token: "prev_token (snd (pop_byte n s)) = prev_token s"
  by (simp add: pop_byte_def stream_read_def)

lemma peek_loop_prev_token:
  "peek_loop operand s = (ret, opd', s') \<Longrightarrow> prev_token s' = prev_token s"
proof (induction operand s arbitrary: ret opd' s' rule: peek_loop.induct)
  case (1 operand s)
  obtain c s1 where p1: "peek_byte 3 s = (c, s1)" by (cases "peek_byte 3 s")
  have t1: "prev_token s1 = prev_token s" using peek_byte_pending [OF p1] by simp
  obtain b s2 where p2: "pop_byte 1 s1 = (b, s2)" by (cases "pop_byte 1 s1")
  have t2: "prev_token s2 = prev_token s"
    using pop_byte_prev_token [of 1 s1] p2 t1 by simp
  show ?case
  proof (cases c)
    case Nil
    then show ?thesis using "1.prems" p1 t1 by (subst (asm) peek_loop.simps) auto
  next
    case (Cons c0 cs)
    show ?thesis
    proof (cases operand)
      case (Some opd)
      show ?thesis
      proof (cases "c0 \<in> IDENTIFIER_BYTES")
        case True
        have "peek_loop (Some (opd @ b)) s2 = (ret, opd', s')"
          using "1.prems" p1 p2 Cons Some True by (subst (asm) peek_loop.simps) simp
        from "1.IH"(2) [OF p1 [symmetric] Cons Some True p2 [symmetric] this]
        show ?thesis using t2 by simp
      next
        case False
        then show ?thesis using "1.prems" p1 Cons Some t1
          by (subst (asm) peek_loop.simps) auto
      qed
    next
      case None
      show ?thesis
      proof (cases "match_token c c0 (prev_token s1)")
        case (Some r)
        have "(ret, opd', s') = (Some r, None, s1)"
          using "1.prems" p1 Cons None Some by (subst (asm) peek_loop.simps) simp
        then show ?thesis using t1 by simp
      next
        case mNone: None
        show ?thesis
        proof (cases "c0 = CHR '' '' \<or> c0 = CHR 0x09")
          case True
          have "(ret, opd', s') = (None, None, s1)"
            using "1.prems" p1 Cons None mNone True by (subst (asm) peek_loop.simps) auto
          then show ?thesis using t1 by simp
        next
          case False
          have "peek_loop (Some b) s2 = (ret, opd', s')"
            using "1.prems" p1 p2 Cons None mNone False by (subst (asm) peek_loop.simps) simp
          from "1.IH"(1) [OF p1 [symmetric] Cons None mNone False p2 [symmetric] this]
          show ?thesis using t2 by simp
        qed
      qed
    qed
  qed
qed

lemma peek_keeps_prev_token: "prev_token (snd (peek s)) = prev_token s"
proof (cases "next_token s")
  case (Some t)
  then show ?thesis by (simp add: peek_def)
next
  case None
  obtain ret operand s1 where pl: "peek_loop None (skip_whitespace s) = (ret, operand, s1)"
    by (cases "peek_loop None (skip_whitespace s)")
  have "prev_token s1 = prev_token s"
    using peek_loop_prev_token [OF pl] skip_whitespace_pending [of s] by simp
  then show ?thesis
    using None pl
    by (auto simp: peek_def pop_byte_prev_token split: option.splits sum.splits)
qed

text \<open>
  C7. \<open>peek\<close> tests \<open>_next_token\<close> but never stores the token it has read there, so the
  token is consumed: on the input \<open>1 2\<close> a first \<open>peek\<close> returns the literal 1, and a
  second \<open>peek\<close>, or a \<open>next\<close>, returns the literal 2. What holds of the claim is its
  last part, \<open>peek_keeps_prev_token\<close>: \<open>peek\<close> never writes \<open>prev_token\<close>.
\<close>

theorem second_peek_returns_next_token:
  "fst (peek (Tokenizer ''1 2'')) = Inr (Some (IntegerToken ''1'' 1))
   \<and> fst (peek (snd (peek (Tokenizer ''1 2'')))) = Inr (Some (IntegerToken ''2'' 2))
   \<and> fst (tokenizer_next (snd (peek (Tokenizer ''1 2'')))) = Inr (Some (IntegerToken ''2'' 2))
   \<and> next_token (snd (peek (Tokenizer ''1 2''))) = None"
  by code_simp

lemma tokenize_whitespace:
  assumes "\<forall>c \<in> set s. c = CHR '' '' \<or> c = CHR 0x09"
  shows "tokenize s = ([], None)"
proof -
  let ?s0 = "Tokenizer s"
  let ?s1 = "skip_whitespace ?s0"
  have "pending ?s0 = s" by (simp add: pending_def Tokenizer_def)
  then have p1: "pending ?s1 = []"
    using skip_whitespace_pending [of ?s0] assms by simp
  obtain c s2 where pb: "peek_byte 3 ?s1 = (c, s2)" by (cases "peek_byte 3 ?s1")
  have "c = []" using peek_byte_pending [OF pb] p1 by simp
  then have "peek_loop None ?s1 = (None, None, s2)"
    using pb by (subst peek_loop.simps) simp
  moreover have "next_token ?s0 = None" by (simp add: Tokenizer_def)
  ultimately have "peek ?s0 = (Inr None, s2)"
    by (simp add: peek_def)
  then have "fst (tokenizer_next ?s0) = Inr None"
    by (simp add: tokenizer_next_def)
  then show ?thesis
    unfolding tokenize_def
    by (subst tokenizer_iter.simps) (auto split: prod.splits sum.splits option.splits)
qed

text \<open>
  C10, as amended. An input that is empty or holds only spaces and tabs, the whitespace
  that the lexer skips, parses to an \<open>Expression\<close> with no tokens, and \<open>interpret\<close> on it
  raises the \<open>RuntimeError\<close> of the check \<open>len(values) != 1\<close>, whatever the assignments:
  the check fires on the empty value stack too.
\<close>

theorem blank_input_parses_but_does_not_evaluate:
  assumes "\<forall>c \<in> set s. c = CHR '' '' \<or> c = CHR 0x09"
  shows "parse s = Inr (Expression [])
         \<and> Expression_interpret (Expression []) assignments
             = Inl (RuntimeError (Unexpected_extra_tokens []))
         \<and> parse_interpret s assignments = Inl (RuntimeError (Unexpected_extra_tokens []))"
proof -
  have p: "parse s = Inr (Expression [])"
    using tokenize_whitespace [OF assms] by (simp add: parse_def infix_to_rpn_def)
  have i: "Expression_interpret (Expression []) assignments
             = Inl (RuntimeError (Unexpected_extra_tokens []))"
    by (simp add: Expression_interpret_def to_str_def)
  show ?thesis using p i by (simp add: parse_interpret_def)
qed

theorem blank_input_witness:
  "parse [CHR '' '', CHR 0x09, CHR '' ''] = Inr (Expression [])
   \<and> parse [] = Inr (Expression [])
   \<and> parse_interpret [CHR '' '', CHR 0x09, CHR '' ''] (Some Map.empty)
        = Inl (RuntimeError (Unexpected_extra_tokens []))
   \<and> parse_interpret [] None = Inl (RuntimeError (Unexpected_extra_tokens []))"
  using blank_input_parses_but_does_not_evaluate [of "[CHR '' '', CHR 0x09, CHR '' '']" "Some Map.empty"]
    blank_input_parses_but_does_not_evaluate [of "[]" None]
  by simp

text \<open>
  C10, as stated, fails for other whitespace: a newline is not skipped, it starts an
  operand, so the input of one newline parses to one identifier and \<open>interpret\<close> raises
  \<open>KeyError\<close> for it under the empty assignments, not \<open>RuntimeError\<close>.
\<close>

theorem newline_input_is_an_identifier:
  "parse [CHR 0x0A] = Inr (Expression [IdentifierToken [CHR 0x0A]])
   \<and> parse_interpret [CHR 0x0A] (Some Map.empty)
       = Inl (KeyError (Unknown_identifier [CHR 0x0A]))"
  by code_simp

text \<open>
  C4. \<open>and\<close> and \<open>or\<close> expand both operands before they execute, so an unknown
  identifier on the right raises \<open>KeyError\<close> whatever the left operand is; the witness is
  \<open>0 and undefined_name\<close> under the empty assignments.
\<close>

theorem and_or_operands_expanded_eagerly:
  assumes "assignments name = None" "op = LOGICAL_AND \<or> op = LOGICAL_OR"
  shows "expand (attrs op) = [True, True]
         \<and> Expression_interpret
              (Expression [IntegerToken raw_str v, IdentifierToken name, OperatorToken op])
              (Some assignments)
            = Inl (KeyError (Unknown_identifier name))"
  using assms
  by (auto simp: Expression_interpret_def to_str_def to_str_operator_def last_n_def
        without_last_n_def Operator_init_def interpret_operator_def numeral_2_eq_2)

theorem and_or_operands_expanded_eagerly_witness:
  "Map.empty ''undefined_name'' = (None :: pyval option)
   \<and> parse ''0 and undefined_name''
       = Inr (Expression [IntegerToken ''0'' 0, IdentifierToken ''undefined_name'',
                          OperatorToken LOGICAL_AND])
   \<and> parse_interpret ''0 and undefined_name'' (Some Map.empty)
       = Inl (KeyError (Unknown_identifier ''undefined_name''))"
proof -
  have p: "parse ''0 and undefined_name''
       = Inr (Expression [IntegerToken ''0'' 0, IdentifierToken ''undefined_name'',
                          OperatorToken LOGICAL_AND])"
    by code_simp
  show ?thesis
    using and_or_operands_expanded_eagerly [of Map.empty "''undefined_name''" LOGICAL_AND "''0''" 0] p
    by (simp add: parse_interpret_def)
qed

lemma interpret_loop_append:
  "interpret_loop a (xs @ ys) vals =
     (case interpret_loop a xs vals of Inl e \<Rightarrow> Inl e | Inr vals' \<Rightarrow> interpret_loop a ys vals')"
  by (induction xs arbitrary: vals) (auto split: Token.splits sum.splits)

lemma get_value_raises:
  "get_value v a = Inl e \<Longrightarrow> \<exists>n. e = KeyError (Unknown_identifier n) \<and> a n = None"
  by (cases "(v, a)" rule: get_value.cases) (auto split: option.splits)

lemma collect_args_unknown_identifier:
  assumes "(True, VTok (IdentifierToken name)) \<in> set pairs" "a name = None"
  shows "\<exists>n. a n = None \<and> collect_args a pairs args exception = Inl (KeyError (Unknown_identifier n))"
  using assms
proof (induction pairs arbitrary: args exception)
  case Nil
  then show ?case by simp
next
  case (Cons p pairs)
  obtain expand_it v where p: "p = (expand_it, v)" by (cases p)
  show ?case
  proof (cases "if expand_it then get_value v a else Inr v")
    case (Inl e)
    then obtain n where "e = KeyError (Unknown_identifier n)" "a n = None"
      using get_value_raises [of v a e] by (auto split: if_splits)
    then show ?thesis using Inl p by auto
  next
    case (Inr x)
    then have "p \<noteq> (True, VTok (IdentifierToken name))"
      using p Cons.prems(2) by auto
    then have "(True, VTok (IdentifierToken name)) \<in> set pairs"
      using Cons.prems(1) by auto
    then show ?thesis using Cons.IH [of _ _] Cons.prems(2) Inr p by simp
  qed
qed

text \<open>
  C2, as amended. An unknown identifier in an operand position that is expanded is not
  deferred: \<open>get_value\<close> raises \<open>KeyError\<close> while the arguments of the operator are
  collected, and \<open>interpret\<close> ends with it whatever tokens follow, a ternary that would
  discard the operand included. Only an identifier that stays unexpanded, the branch of
  a ternary that is not selected, is never looked up.
\<close>

theorem unknown_identifier_raises_at_once:
  assumes "interpret_loop a pre [] = Inr vals"
    and "(True, VTok (IdentifierToken name))
           \<in> set (zip (expand (attrs op)) (last_n (arity (attrs op)) vals))"
    and "a name = None"
    and "to_str (Expression (pre @ OperatorToken op # post)) = Inr message"
    and "c \<noteq> 0"
  shows "(\<exists>n. a n = None \<and>
            Expression_interpret (Expression (pre @ OperatorToken op # post)) (Some a)
              = Inl (KeyError (Unknown_identifier n)))
         \<and> Expression_interpret
              (Expression [IntegerToken raw_c c, IntegerToken raw_v v, IdentifierToken other,
                           OperatorToken TERNARY_ELSE, OperatorToken TERNARY_CONDITIONAL])
              (Some a)
            = Inr (VInt v)"
proof
  obtain n where n: "a n = None"
      "collect_args a (zip (expand (attrs op)) (last_n (arity (attrs op)) vals)) [] None
         = Inl (KeyError (Unknown_identifier n))"
    using collect_args_unknown_identifier [of name _ a "[]" None] assms(2,3) by blast
  then have "interpret_operator a vals op = Inl (KeyError (Unknown_identifier n))"
    by (simp add: interpret_operator_def)
  then have "interpret_loop a (pre @ OperatorToken op # post) [] = Inl (KeyError (Unknown_identifier n))"
    using assms(1) by (simp add: interpret_loop_append)
  then have "Expression_interpret (Expression (pre @ OperatorToken op # post)) (Some a)
              = Inl (KeyError (Unknown_identifier n))"
    using assms(4) by (simp add: Expression_interpret_def)
  then show "\<exists>n. a n = None \<and>
            Expression_interpret (Expression (pre @ OperatorToken op # post)) (Some a)
              = Inl (KeyError (Unknown_identifier n))"
    using n(1) by blast
next
  show "Expression_interpret
              (Expression [IntegerToken raw_c c, IntegerToken raw_v v, IdentifierToken other,
                           OperatorToken TERNARY_ELSE, OperatorToken TERNARY_CONDITIONAL])
              (Some a)
            = Inr (VInt v)"
    using assms(5)
    by (simp add: Expression_interpret_def to_str_def to_str_operator_def last_n_def
        without_last_n_def Operator_init_def interpret_operator_def numeral_2_eq_2
        call2_def index_seq_def)
qed

theorem unknown_identifier_raises_at_once_witness:
  "(\<exists>n. Expression_interpret
         (Expression ([IntegerToken ''1'' 1, IntegerToken ''2'' 2, IdentifierToken ''y'',
                       IntegerToken ''1'' 1]
                      @ OperatorToken ADDITION
                      # [OperatorToken TERNARY_ELSE, OperatorToken TERNARY_CONDITIONAL]))
         (Some Map.empty)
        = Inl (KeyError (Unknown_identifier n)))
   \<and> Expression_interpret
         (Expression [IntegerToken ''1'' 1, IntegerToken ''2'' 2, IdentifierToken ''y'',
                      OperatorToken TERNARY_ELSE, OperatorToken TERNARY_CONDITIONAL])
         (Some Map.empty)
       = Inr (VInt 2)"
proof -
  let ?pre = "[IntegerToken ''1'' 1, IntegerToken ''2'' 2, IdentifierToken ''y'', IntegerToken ''1'' 1]"
  let ?post = "[OperatorToken TERNARY_ELSE, OperatorToken TERNARY_CONDITIONAL]"
  let ?vals = "map VTok ?pre"
  have 1: "interpret_loop Map.empty ?pre [] = Inr ?vals" by simp
  have 2: "(True, VTok (IdentifierToken ''y''))
           \<in> set (zip (expand (attrs ADDITION)) (last_n (arity (attrs ADDITION)) ?vals))"
    by (simp add: Operator_init_def last_n_def numeral_2_eq_2)
  have 3: "(Map.empty :: assignments) ''y'' = None" by simp
  have 4: "to_str (Expression (?pre @ OperatorToken ADDITION # ?post)) = Inr ''(1?(2:(y+1)))''"
    by code_simp
  have 5: "(1::int) \<noteq> 0" by simp
  show ?thesis
    using unknown_identifier_raises_at_once [OF 1 2 3 4 5, of "''1''" "''2''" 2 "''y''"]
    by blast
qed

text \<open>
  C2, as stated, fails: in \<open>1 ? 2 : y + 1\<close> the ternary selects 2 and discards the
  sum, yet \<open>interpret\<close> raises for the unknown \<open>y\<close>.
\<close>

theorem unknown_identifier_not_deferred:
  "parse_interpret ''1 ? 2 : y + 1'' (Some Map.empty) = Inl (KeyError (Unknown_identifier ''y''))"
  by code_simp

text \<open>
  C1, as amended. A lookup failure while \<open>.\<close> (\<open>MEMBER_ACCESS\<close>) or the subscript
  operator (\<open>GETITEM\<close>) executes is caught and becomes a deferred error value on the stack: with \<open>x\<close> bound to a mapping without the
  member, \<open>c ? v : x.member\<close> returns \<open>v\<close> for a true \<open>c\<close>, and raises the deferred
  error only when the else-branch is selected. The same failure under \<open>::\<close>
  (\<open>ENUM_ACCESSOR\<close>), which runs outside the \<open>try\<close>, is raised at once.
\<close>

theorem member_lookup_failure_is_deferred:
  assumes "a x = Some (VDict d)" "map_of d member = None" "c \<noteq> 0"
  shows "interpret_operator a (vals @ [VTok (IdentifierToken x), VTok (IdentifierToken member)])
           MEMBER_ACCESS
         = Inr (vals @ [VExc (KeyError (Failed_subscript (VTok (IdentifierToken x))
                                         (VTok (IdentifierToken member))))])
       \<and> Expression_interpret
           (Expression [IntegerToken raw_c c, IntegerToken raw_v v, IdentifierToken x,
                        IdentifierToken member, OperatorToken MEMBER_ACCESS,
                        OperatorToken TERNARY_ELSE, OperatorToken TERNARY_CONDITIONAL])
           (Some a)
         = Inr (VInt v)
       \<and> Expression_interpret
           (Expression [IntegerToken raw_c 0, IntegerToken raw_v v, IdentifierToken x,
                        IdentifierToken member, OperatorToken MEMBER_ACCESS,
                        OperatorToken TERNARY_ELSE, OperatorToken TERNARY_CONDITIONAL])
           (Some a)
         = Inl (KeyError (Failed_subscript (VTok (IdentifierToken x))
                           (VTok (IdentifierToken member))))
       \<and> interpret_operator a (vals @ [VDict d, VStr member]) GETITEM
         = Inr (vals @ [VExc (KeyError (Failed_subscript (VDict d) (VStr member)))])
       \<and> interpret_operator a (vals @ [VTok (IdentifierToken x), VTok (IdentifierToken member)])
           ENUM_ACCESSOR
         = Inl (KeyError (Missing_key (VStr member)))"
  using assms
  by (simp add: Expression_interpret_def to_str_def to_str_operator_def last_n_def
        without_last_n_def Operator_init_def interpret_operator_def numeral_2_eq_2
        call2_def index_seq_def execute_guarded_def member_access_def)

theorem member_lookup_failure_is_deferred_witness:
  "parse ''1 ? 2 : x.missing''
     = Inr (Expression [IntegerToken ''1'' 1, IntegerToken ''2'' 2, IdentifierToken ''x'',
                        IdentifierToken ''missing'', OperatorToken MEMBER_ACCESS,
                        OperatorToken TERNARY_ELSE, OperatorToken TERNARY_CONDITIONAL])
   \<and> parse_interpret ''1 ? 2 : x.missing'' (Some [''x'' \<mapsto> VDict []]) = Inr (VInt 2)"
proof -
  have p: "parse ''1 ? 2 : x.missing''
     = Inr (Expression [IntegerToken ''1'' 1, IntegerToken ''2'' 2, IdentifierToken ''x'',
                        IdentifierToken ''missing'', OperatorToken MEMBER_ACCESS,
                        OperatorToken TERNARY_ELSE, OperatorToken TERNARY_CONDITIONAL])"
    by code_simp
  have 1: "[''x'' \<mapsto> VDict []] ''x'' = Some (VDict [])" by simp
  have 2: "map_of ([] :: (string \<times> pyval) list) ''missing'' = None" by simp
  have 3: "(1::int) \<noteq> 0" by simp
  show ?thesis
    using member_lookup_failure_is_deferred
      [where a = "[''x'' \<mapsto> VDict []]" and x = "''x''" and d = "[]" and member = "''missing''"
         and c = 1 and vals = "[]" and raw_c = "''1''" and raw_v = "''2''" and v = 2]
      1 2 3 p
    by (simp add: parse_interpret_def)
qed

text \<open>
  C1, as stated, fails: with \<open>x\<close> bound to an empty mapping, \<open>1 ? 2 : x::missing\<close> raises
  \<open>KeyError\<close> instead of returning 2.
\<close>

theorem enum_lookup_failure_raises:
  "parse_interpret ''1 ? 2 : x::missing'' (Some [''x'' \<mapsto> VDict []])
     = Inl (KeyError (Missing_key (VStr ''missing'')))"
  by code_simp

text \<open>
  C9, as amended. A value that \<open>interpret\<close> returns is never an exception object (a
  deferred error is raised instead), and an expression that is a single identifier
  returns the value bound to it. The result is otherwise the item left on the value
  stack, whatever its kind.
\<close>

theorem interpret_result_is_no_exception:
  "(Expression_interpret e assignments_arg = Inr v \<longrightarrow> \<not> is_exception v)
   \<and> (a name = Some w \<and> \<not> is_exception w \<longrightarrow>
        Expression_interpret (Expression [IdentifierToken name]) (Some a) = Inr w)"
proof
  show "Expression_interpret e assignments_arg = Inr v \<longrightarrow> \<not> is_exception v"
    by (auto simp: Expression_interpret_def Let_def
          split: sum.splits if_splits pyval.splits Token.splits)
next
  show "a name = Some w \<and> \<not> is_exception w \<longrightarrow>
        Expression_interpret (Expression [IdentifierToken name]) (Some a) = Inr w"
    by (cases w) (auto simp: Expression_interpret_def to_str_def)
qed

theorem interpret_result_is_no_exception_witness:
  "parse_interpret ''marker'' (Some [''marker'' \<mapsto> VInt 1]) = Inr (VInt 1)"
proof -
  have p: "parse ''marker'' = Inr (Expression [IdentifierToken ''marker''])" by code_simp
  have 1: "[''marker'' \<mapsto> VInt 1] ''marker'' = Some (VInt 1) \<and> \<not> is_exception (VInt 1)"
    by simp
  have 2: "Expression_interpret (Expression [IdentifierToken ''marker''])
             (Some [''marker'' \<mapsto> VInt 1]) = Inr (VInt 1)"
    using interpret_result_is_no_exception
      [of "Expression [IdentifierToken ''marker'']" "Some [''marker'' \<mapsto> VInt 1]" "VInt 1"
          "[''marker'' \<mapsto> VInt 1]" "''marker''" "VInt 1"] 1
    by blast
  show ?thesis
    using interpret_result_is_no_exception
      [of "Expression [IdentifierToken ''marker'']" "Some [''marker'' \<mapsto> VInt 1]" "VInt 1"] 2 p
    by (simp add: parse_interpret_def)
qed

text \<open>
  C9, as stated, fails: \<open>1 : 2\<close> returns the pair of its two unresolved operands, which is
  neither an integer, a byte or text sequence, a mapping nor a boolean.
\<close>

theorem interpret_returns_a_pair:
  "parse_interpret ''1 : 2'' (Some Map.empty)
     = Inr (VTuple [VTok (IntegerToken ''1'' 1), VTok (IntegerToken ''2'' 2)])
   \<and> \<not> is_data_value (VTuple [VTok (IntegerToken ''1'' 1), VTok (IntegerToken ''2'' 2)])"
  by code_simp

lemma special_digit_values:
  "digit_value (CHR 0x09) = None" "digit_value (CHR 0x0A) = None" "digit_value (CHR 0x0B) = None"
  "digit_value (CHR 0x0C) = None" "digit_value (CHR 0x0D) = None" "digit_value (CHR 0x20) = None"
  "digit_value (CHR 0x85) = None" "digit_value (CHR 0xA0) = None"
  "digit_value (CHR ''_'') = None" "digit_value (CHR ''+'') = None" "digit_value (CHR ''-'') = None"
  by (simp_all add: digit_value_def)

lemma special_no_digit:
  "py_isspace c \<or> c = CHR ''_'' \<or> c = CHR ''+'' \<or> c = CHR ''-'' \<Longrightarrow> digit_value c = None"
  unfolding py_isspace_def using special_digit_values by auto

lemma digit_not_special:
  "is_digit_of base c \<Longrightarrow>
     \<not> py_isspace c \<and> c \<noteq> CHR ''_'' \<and> c \<noteq> CHR ''+'' \<and> c \<noteq> CHR ''-''"
  using special_no_digit [of c] by (auto simp: is_digit_of_def split: option.splits)

lemma scan_digits_all:
  "list_all (is_digit_of base) ds \<Longrightarrow> ds \<noteq> [] \<or> \<not> prev \<Longrightarrow>
     scan_digits base prev acc n ds =
       Some (foldl (\<lambda>acc c. acc * int base + (case digit_value c of Some d \<Rightarrow> int d | None \<Rightarrow> 0))
               acc ds, n + length ds, [])"
proof (induction ds arbitrary: prev acc n)
  case Nil
  then show ?case by simp
next
  case (Cons c cs)
  then have d: "is_digit_of base c" "list_all (is_digit_of base) cs" by simp_all
  then obtain k where k: "digit_value c = Some k" "k < base"
    by (auto simp: is_digit_of_def split: option.splits)
  have "c \<noteq> CHR ''_''" using digit_not_special [OF d(1)] by simp
  then show ?case using k Cons.IH [OF d(2), of False] by simp
qed

lemma int_digits_all:
  assumes "ds \<noteq> []" "list_all (is_digit_of base) ds"
  shows "int_digits base ds = Some (digits_value base ds)"
proof -
  obtain c cs where ds: "ds = c # cs" using assms(1) by (cases ds) auto
  then have "c \<noteq> CHR ''_''" using assms(2) digit_not_special [of base c] by simp
  then show ?thesis
    using scan_digits_all [OF assms(2), of False 0 0] ds
    by (simp add: int_digits_def digits_value_def)
qed

lemma py_int_prefixed:
  assumes "ds \<noteq> []" "list_all (is_digit_of base) ds"
    and "(base = 16 \<and> p = CHR ''x'') \<or> (base = 8 \<and> p = CHR ''o'') \<or> (base = 2 \<and> p = CHR ''b'')"
  shows "py_int base (CHR ''0'' # p # ds) = Some (digits_value base ds)"
proof -
  obtain c cs where ds: "ds = c # cs" using assms(1) by (cases ds) auto
  then have "c \<noteq> CHR ''_''" using assms(2) digit_not_special [of base c] by simp
  then have "skip_prefix base (CHR ''0'' # p # ds) = ds"
    using assms(3) ds by (auto simp: skip_prefix_def)
  then show ?thesis
    using int_digits_all [OF assms(1,2)] by (simp add: py_int_def py_isspace_def)
qed

lemma py_int_decimal:
  assumes "ds \<noteq> []" "list_all (is_digit_of 10) ds"
  shows "py_int 10 ds = Some (digits_value 10 ds)"
proof -
  obtain c cs where ds: "ds = c # cs" using assms(1) by (cases ds) auto
  then have c: "\<not> py_isspace c" "c \<noteq> CHR ''+''" "c \<noteq> CHR ''-''"
    using assms(2) digit_not_special [of 10 c] by simp_all
  have "skip_prefix 10 ds = ds"
    by (auto simp: skip_prefix_def split: list.splits)
  then show ?thesis
    using int_digits_all [OF assms] c ds by (simp add: py_int_def)
qed

lemma decimal_no_prefix:
  assumes "list_all (is_digit_of 10) ds"
  shows "take 2 ds \<noteq> ''0x'' \<and> take 2 ds \<noteq> ''0o'' \<and> take 2 ds \<noteq> ''0b''"
proof (cases ds)
  case Nil
  then show ?thesis by simp
next
  case (Cons c cs)
  show ?thesis
  proof (cases cs)
    case Nil
    then show ?thesis using Cons by simp
  next
    case (Cons d cs')
    then have "is_digit_of 10 d" using assms \<open>ds = c # cs\<close> by simp
    moreover have "\<not> is_digit_of 10 CHR ''x''" "\<not> is_digit_of 10 CHR ''o''"
        "\<not> is_digit_of 10 CHR ''b''"
      by (simp_all add: is_digit_of_def digit_value_def)
    ultimately have "d \<noteq> CHR ''x'' \<and> d \<noteq> CHR ''o'' \<and> d \<noteq> CHR ''b''"
      by auto
    then show ?thesis using Cons \<open>ds = c # cs\<close> by simp
  qed
qed

lemma scan_digits_rest:
  "scan_digits base prev acc n s = Some (v, m, rest) \<Longrightarrow>
     \<exists>pre. s = pre @ rest \<and> (\<forall>c \<in> set pre. c = CHR ''_'' \<or> is_digit_of base c)"
proof (induction s arbitrary: prev acc n)
  case Nil
  then show ?case by (auto split: if_splits)
next
  case (Cons c cs)
  show ?case
  proof (cases "c = CHR ''_'' \<or> is_digit_of base c")
    case True
    then obtain prev' acc' n' where "scan_digits base prev' acc' n' cs = Some (v, m, rest)"
      using Cons.prems by (auto simp: is_digit_of_def split: if_splits option.splits)
    from Cons.IH [OF this] obtain pre where "cs = pre @ rest"
        "\<forall>c \<in> set pre. c = CHR ''_'' \<or> is_digit_of base c" by blast
    then have "c # cs = (c # pre) @ rest \<and> (\<forall>x \<in> set (c # pre). x = CHR ''_'' \<or> is_digit_of base x)"
      using True by auto
    then show ?thesis by blast
  next
    case False
    then have "rest = c # cs"
      using Cons.prems by (auto simp: is_digit_of_def split: if_splits option.splits)
    then show ?thesis by auto
  qed
qed

lemma int_digits_bad_char:
  assumes "c \<in> set s" "\<not> py_isspace c" "c \<noteq> CHR ''_''" "\<not> is_digit_of base c"
  shows "int_digits base s = None"
proof (rule ccontr)
  assume "int_digits base s \<noteq> None"
  then obtain v n rest where sc: "scan_digits base False 0 0 s = Some (v, n, rest)"
      and r: "dropWhile py_isspace rest = []"
    by (auto simp: int_digits_def split: list.splits if_splits option.splits)
  from scan_digits_rest [OF sc] obtain pre where pre: "s = pre @ rest"
      "\<forall>c \<in> set pre. c = CHR ''_'' \<or> is_digit_of base c" by blast
  have "c \<in> set rest" using assms pre by auto
  moreover have "\<forall>x \<in> set rest. py_isspace x" using r by (simp add: dropWhile_eq_Nil_conv)
  ultimately show False using assms(2) by blast
qed

lemma py_int_prefixed_bad_char:
  assumes "c \<in> set r" "\<not> py_isspace c" "c \<noteq> CHR ''_''" "\<not> is_digit_of base c"
  shows "py_int base (CHR ''0'' # p # r) = None"
proof -
  let ?s = "skip_prefix base (CHR ''0'' # p # r)"
  have "?s = CHR ''0'' # p # r \<or> ?s = r \<or> CHR ''_'' # ?s = r"
    by (auto simp: skip_prefix_def split: list.splits)
  then have "c \<in> set ?s"
  proof (elim disjE)
    assume "?s = CHR ''0'' # p # r"
    then show ?thesis using assms(1) by simp
  next
    assume "?s = r"
    then show ?thesis using assms(1) by simp
  next
    assume "CHR ''_'' # ?s = r"
    then have "set r = insert CHR ''_'' (set ?s)" by (metis list.simps(15))
    then show ?thesis using assms(1,3) by blast
  qed
  then have "int_digits base ?s = None"
    using int_digits_bad_char assms by blast
  then show ?thesis by (simp add: py_int_def py_isspace_def)
qed

lemma py_int_decimal_bad_char:
  assumes "c \<in> set s" "\<not> py_isspace c" "c \<noteq> CHR ''_''" "c \<noteq> CHR ''+''" "c \<noteq> CHR ''-''"
    "\<not> is_digit_of 10 c"
  shows "py_int 10 s = None"
proof -
  let ?s1 = "dropWhile py_isspace s"
  let ?s2 = "case ?s1 of c # r \<Rightarrow> if c = CHR ''+'' \<or> c = CHR ''-'' then r else ?s1 | [] \<Rightarrow> ?s1"
  have "c \<in> set ?s1"
    using assms(1,2) by (induction s) auto
  then have "c \<in> set ?s2"
    using assms(4,5) by (auto split: list.splits)
  moreover have "skip_prefix 10 ?s2 = ?s2"
    by (auto simp: skip_prefix_def split: list.splits)
  ultimately have "int_digits 10 (skip_prefix 10 ?s2) = None"
    using int_digits_bad_char [of c "?s2" 10] assms by simp
  then show ?thesis by (simp add: py_int_def Let_def)
qed

lemma classify_prefixed:
  assumes "ds \<noteq> []" "list_all (is_digit_of base) ds"
    and "(base = 16 \<and> p = CHR ''x'') \<or> (base = 8 \<and> p = CHR ''o'') \<or> (base = 2 \<and> p = CHR ''b'')"
  shows "classify_operand (CHR ''0'' # p # ds)
         = Inr (IntegerToken (CHR ''0'' # p # ds) (digits_value base ds))"
  using py_int_prefixed [OF assms] assms(3)
  by (auto simp: classify_operand_def)

lemma classify_decimal:
  assumes "ds \<noteq> []" "list_all (is_digit_of 10) ds"
  shows "classify_operand ds = Inr (IntegerToken ds (digits_value 10 ds))"
proof -
  have "classify_operand ds
        = (case py_int 10 ds of Some v \<Rightarrow> Inr (IntegerToken ds v) | None \<Rightarrow> Inr (IdentifierToken ds))"
    unfolding classify_operand_def using decimal_no_prefix [OF assms(2)] by (simp only: if_False)
  then show ?thesis using py_int_decimal [OF assms] by simp
qed

lemma classify_prefixed_bad_char:
  assumes "c \<in> set r" "\<not> py_isspace c" "c \<noteq> CHR ''_''" "\<not> is_digit_of base c"
    and "(base = 16 \<and> p = CHR ''x'') \<or> (base = 8 \<and> p = CHR ''o'') \<or> (base = 2 \<and> p = CHR ''b'')"
  shows "classify_operand (CHR ''0'' # p # r) = Inl ValueError"
  using py_int_prefixed_bad_char [OF assms(1-4), of p] assms(5)
  by (auto simp: classify_operand_def)

lemma classify_identifier:
  assumes "take 2 operand \<noteq> ''0x''" "take 2 operand \<noteq> ''0o''" "take 2 operand \<noteq> ''0b''"
    and "c \<in> set operand" "\<not> py_isspace c" "c \<noteq> CHR ''_''" "c \<noteq> CHR ''+''" "c \<noteq> CHR ''-''"
      "\<not> is_digit_of 10 c"
  shows "classify_operand operand = Inr (IdentifierToken operand)"
proof -
  have "classify_operand operand
        = (case py_int 10 operand of Some v \<Rightarrow> Inr (IntegerToken operand v)
           | None \<Rightarrow> Inr (IdentifierToken operand))"
    unfolding classify_operand_def using assms(1-3) by (simp only: if_False)
  then show ?thesis using py_int_decimal_bad_char [OF assms(4-9)] by simp
qed

text \<open>
  C8, as amended. An operand that starts with \<open>0x\<close>, \<open>0o\<close> or \<open>0b\<close> followed by digits
  of base 16, 8 or 2 is an integer literal with the value the prefix implies, a string of
  decimal digits is an integer literal with its decimal value, and a prefixed operand
  with a character that is no digit of its base raises \<open>ValueError\<close>: only the decimal
  conversion sits in a \<open>try\<close>. An operand without such a prefix that holds a letter or
  another character that is no decimal digit is an identifier.
\<close>

theorem operand_classification:
  "(ds \<noteq> [] \<and> list_all (is_digit_of 16) ds \<longrightarrow>
      classify_operand (''0x'' @ ds) = Inr (IntegerToken (''0x'' @ ds) (digits_value 16 ds)))
   \<and> (ds \<noteq> [] \<and> list_all (is_digit_of 8) ds \<longrightarrow>
      classify_operand (''0o'' @ ds) = Inr (IntegerToken (''0o'' @ ds) (digits_value 8 ds)))
   \<and> (ds \<noteq> [] \<and> list_all (is_digit_of 2) ds \<longrightarrow>
      classify_operand (''0b'' @ ds) = Inr (IntegerToken (''0b'' @ ds) (digits_value 2 ds)))
   \<and> (ds \<noteq> [] \<and> list_all (is_digit_of 10) ds \<longrightarrow>
      classify_operand ds = Inr (IntegerToken ds (digits_value 10 ds)))
   \<and> (c \<in> set r \<and> \<not> py_isspace c \<and> c \<noteq> CHR ''_'' \<and> \<not> is_digit_of 16 c \<longrightarrow>
      classify_operand (''0x'' @ r) = Inl ValueError)
   \<and> (c \<in> set r \<and> \<not> py_isspace c \<and> c \<noteq> CHR ''_'' \<and> \<not> is_digit_of 8 c \<longrightarrow>
      classify_operand (''0o'' @ r) = Inl ValueError)
   \<and> (c \<in> set r \<and> \<not> py_isspace c \<and> c \<noteq> CHR ''_'' \<and> \<not> is_digit_of 2 c \<longrightarrow>
      classify_operand (''0b'' @ r) = Inl ValueError)
   \<and> (take 2 operand \<noteq> ''0x'' \<and> take 2 operand \<noteq> ''0o'' \<and> take 2 operand \<noteq> ''0b''
       \<and> c \<in> set operand \<and> \<not> py_isspace c \<and> c \<noteq> CHR ''_'' \<and> c \<noteq> CHR ''+'' \<and> c \<noteq> CHR ''-''
       \<and> \<not> is_digit_of 10 c \<longrightarrow>
      classify_operand operand = Inr (IdentifierToken operand))"
  using classify_prefixed [of ds 16 "CHR ''x''"] classify_prefixed [of ds 8 "CHR ''o''"]
    classify_prefixed [of ds 2 "CHR ''b''"] classify_decimal [of ds]
    classify_prefixed_bad_char [of c r 16 "CHR ''x''"]
    classify_prefixed_bad_char [of c r 8 "CHR ''o''"]
    classify_prefixed_bad_char [of c r 2 "CHR ''b''"]
    classify_identifier [of operand c]
  by (simp only: append_Cons append_Nil) blast

theorem operand_classification_witness:
  "classify_operand ''0x10'' = Inr (IntegerToken ''0x10'' 16)
   \<and> classify_operand ''0o17'' = Inr (IntegerToken ''0o17'' 15)
   \<and> classify_operand ''0b101'' = Inr (IntegerToken ''0b101'' 5)
   \<and> classify_operand ''42'' = Inr (IntegerToken ''42'' 42)
   \<and> classify_operand ''0b2'' = Inl ValueError
   \<and> classify_operand ''abc'' = Inr (IdentifierToken ''abc'')"
proof -
  have d: "list_all (is_digit_of 16) ''10''" "list_all (is_digit_of 8) ''17''"
    "list_all (is_digit_of 2) ''101''" "list_all (is_digit_of 10) ''42''"
    "\<not> is_digit_of 2 CHR ''2''" "\<not> is_digit_of 10 CHR ''a''"
    "\<not> py_isspace CHR ''2''" "\<not> py_isspace CHR ''a''"
    by code_simp+
  have v: "digits_value 16 ''10'' = 16" "digits_value 8 ''17'' = 15"
    "digits_value 2 ''101'' = 5" "digits_value 10 ''42'' = 42"
    by code_simp+
  show ?thesis
    using operand_classification [where ds = "''10''" and c = "CHR ''2''" and r = "''2''"
        and operand = "''abc''"]
      operand_classification [where ds = "''17''" and c = "CHR ''a''" and r = "''2''"
        and operand = "''abc''"]
      operand_classification [where ds = "''101''" and c = "CHR ''2''" and r = "''2''"
        and operand = "''abc''"]
      operand_classification [where ds = "''42''" and c = "CHR ''2''" and r = "''2''"
        and operand = "''abc''"]
      d v
    by simp
qed

text \<open>
  C8, as stated, fails: the operand \<open>0xg\<close> parses under none of the four forms, and it
  does not become an identifier; \<open>int(operand, 16)\<close> raises \<open>ValueError\<close> and lexing fails.
\<close>

theorem malformed_hex_operand_raises:
  "classify_operand ''0xg'' = Inl ValueError
   \<and> tokenize ''0xg'' = ([], Some ValueError)
   \<and> parse ''0xg'' = Inl ValueError"
  by code_simp
















lemma foldl_big_endian:
  "foldl (\<lambda>acc b. acc * 256 + uint b) acc bs = acc * 256 ^ length bs + big_endian bs"
  by (induction bs arbitrary: acc) (simp_all add: algebra_simps)

lemma from_bytes_big_eq: "from_bytes_big bs = big_endian bs"
  by (simp add: from_bytes_big_def foldl_big_endian)

lemma to_int_bytes_eq: "to_int_bytes bs = big_endian bs"
proof (cases bs)
  case Nil
  then show ?thesis by (simp add: to_int_bytes_def)
next
  case (Cons b cs)
  then show ?thesis by (cases cs) (simp_all add: to_int_bytes_def from_bytes_big_eq)
qed

lemma to_int_result:
  "to_int a = Inr x \<Longrightarrow> (\<exists>i. x = VInt i) \<or> (\<exists>p. x = VBool p)"
  by (cases a) (auto split: if_splits option.splits sum.splits exc.splits)

lemma to_int_idem: "to_int a = Inr x \<Longrightarrow> to_int x = Inr x"
  using to_int_result [of a x] by auto

lemma bytes_of_items_error:
  "bytes_of_items xs = Inl e \<Longrightarrow> e = TypeError \<or> e = ValueError"
  by (induction xs) (auto split: option.splits if_splits sum.splits)

lemma py_bytes_error: "py_bytes v = Inl e \<Longrightarrow> e = TypeError \<or> e = ValueError"
  by (cases v) (auto dest: bytes_of_items_error split: if_splits)

lemma to_int_other:
  assumes "\<forall>i. v \<noteq> VInt i" "\<forall>p. v \<noteq> VBool p" "\<forall>s. v \<noteq> VStr s" "\<forall>bs. v \<noteq> VBytes bs"
  shows "to_int v = (case py_bytes v of Inr bs \<Rightarrow> Inr (VInt (big_endian bs)) | Inl e \<Rightarrow> Inl ValueError)"
proof -
  have "to_int v =
     (case py_bytes v of
        Inl TypeError \<Rightarrow> Inl ValueError
      | Inl e \<Rightarrow> Inl e
      | Inr bs \<Rightarrow> Inr (VInt (to_int_bytes bs)))"
  proof (cases v)
    case (VInt i)
    then show ?thesis using assms(1) by blast
  next
    case (VBool p)
    then show ?thesis using assms(2) by blast
  next
    case (VStr s)
    then show ?thesis using assms(3) by blast
  next
    case (VBytes bs)
    then show ?thesis using assms(4) by blast
  qed simp_all
  then show ?thesis
    using py_bytes_error [of v] by (auto simp: to_int_bytes_eq split: sum.splits exc.splits)
qed

lemma execute_coerced:
  assumes "op \<in> coercing_operators"
  shows "\<exists>f. execute op = call2 (coerced2 f)"
  using assms unfolding coercing_operators_def by auto

lemma execute_on_integers:
  "execute MULTIPLICATION [VInt i, VInt j] = Inr (VInt (i * j))"
  "execute DIVISION [VInt i, VInt j] = (if j = 0 then Inl ZeroDivisionError else Inr (VInt (i div j)))"
  "execute REMAINDER [VInt i, VInt j] = (if j = 0 then Inl ZeroDivisionError else Inr (VInt (i mod j)))"
  "execute SUBTRACTION [VInt i, VInt j] = Inr (VInt (i - j))"
  "execute BITWISE_LEFT_SHIFT [VInt i, VInt j] =
     (if j < 0 then Inl ValueError else Inr (VInt (i * 2 ^ nat j)))"
  "execute BITWISE_RIGHT_SHIFT [VInt i, VInt j] =
     (if j < 0 then Inl ValueError else Inr (VInt (i div 2 ^ nat j)))"
  "execute BITWISE_AND [VInt i, VInt j] = Inr (VInt (i AND j))"
  "execute BITWISE_XOR [VInt i, VInt j] = Inr (VInt (i XOR j))"
  "execute BITWISE_OR [VInt i, VInt j] = Inr (VInt (i OR j))"
  by (simp_all add: call2_def coerced2_def int_op_def bit_op_def py_floordiv_def py_mod_def
        py_lshift_def py_rshift_def push_bit_eq_mult drop_bit_eq_div)

text \<open>
  C6, as amended. The operators \<open>*\<close>, \<open>/\<close>, \<open>%\<close>, binary \<open>-\<close>, \<open><<\<close>, \<open>>>\<close>,
  \<open>&\<close>, \<open>^\<close> and \<open>|\<close> convert both operands with \<open>to_int\<close>, the left one first,
  fail with the error of the conversion, and otherwise give what they give on the
  converted operands. \<open>to_int\<close> leaves integers and booleans as they are, maps a byte
  sequence to its big-endian value (0 when empty, the byte itself when single), and
  converts a value of another kind, text apart, with \<open>bytes\<close>, raising \<open>ValueError\<close>
  when that fails.
\<close>

theorem arithmetic_operators_coerce:
  assumes "op \<in> coercing_operators"
  shows "(\<forall>e. to_int a = Inl e \<longrightarrow> execute op [a, b] = Inl e)
       \<and> (\<forall>x e. to_int a = Inr x \<and> to_int b = Inl e \<longrightarrow> execute op [a, b] = Inl e)
       \<and> (\<forall>x y. to_int a = Inr x \<and> to_int b = Inr y \<longrightarrow> execute op [a, b] = execute op [x, y])
       \<and> to_int (VInt i) = Inr (VInt i)
       \<and> to_int (VBool p) = Inr (VBool p)
       \<and> to_int (VBytes bs) = Inr (VInt (big_endian bs))
       \<and> big_endian [] = 0
       \<and> big_endian [byte] = uint byte
       \<and> ((\<forall>i. v \<noteq> VInt i) \<and> (\<forall>p. v \<noteq> VBool p) \<and> (\<forall>s. v \<noteq> VStr s) \<and> (\<forall>bs. v \<noteq> VBytes bs)
            \<longrightarrow> to_int v = (case py_bytes v of
                             Inr bs \<Rightarrow> Inr (VInt (big_endian bs))
                           | Inl e \<Rightarrow> Inl ValueError))"
proof -
  obtain f where f: "execute op = call2 (coerced2 f)"
    using execute_coerced [OF assms] by blast
  have 1: "\<forall>e. to_int a = Inl e \<longrightarrow> execute op [a, b] = Inl e"
    by (simp add: f call2_def coerced2_def)
  have 2: "\<forall>x e. to_int a = Inr x \<and> to_int b = Inl e \<longrightarrow> execute op [a, b] = Inl e"
    by (simp add: f call2_def coerced2_def)
  have 3: "\<forall>x y. to_int a = Inr x \<and> to_int b = Inr y \<longrightarrow> execute op [a, b] = execute op [x, y]"
  proof (intro allI impI)
    fix x y
    assume h: "to_int a = Inr x \<and> to_int b = Inr y"
    then have "to_int x = Inr x" "to_int y = Inr y"
      using to_int_idem by blast+
    then show "execute op [a, b] = execute op [x, y]"
      using h by (simp add: f call2_def coerced2_def)
  qed
  show ?thesis
    using 1 2 3 to_int_other [of v] by (simp add: to_int_bytes_eq)
qed

theorem arithmetic_operators_coerce_witness:
  "execute MULTIPLICATION [VBytes [1, 2], VBytes [2]] = Inr (VInt 516)
   \<and> to_int VNone = Inl ValueError"
proof -
  have m: "MULTIPLICATION \<in> coercing_operators" by (simp add: coercing_operators_def)
  have t: "to_int (VBytes [1, 2]) = Inr (VInt 258)" "to_int (VBytes [2]) = Inr (VInt 2)"
    by code_simp+
  have e: "execute MULTIPLICATION [VInt 258, VInt 2] = Inr (VInt 516)" by code_simp
  have n: "(\<forall>i. VNone \<noteq> VInt i) \<and> (\<forall>p. VNone \<noteq> VBool p) \<and> (\<forall>s. VNone \<noteq> VStr s)
           \<and> (\<forall>bs. VNone \<noteq> VBytes bs)" by simp
  have "execute MULTIPLICATION [VBytes [1, 2], VBytes [2]] = execute MULTIPLICATION [VInt 258, VInt 2]"
    using arithmetic_operators_coerce [OF m, of "VBytes [1, 2]" "VBytes [2]"] t by blast
  moreover have "to_int VNone = Inl ValueError"
    using arithmetic_operators_coerce [OF m, where v = VNone] n by simp
  ultimately show ?thesis using e by simp
qed

text \<open>
  C6, as stated, fails for binary \<open>+\<close>, which applies Python's \<open>+\<close> to the operands as
  they are: two byte sequences are concatenated, where \<open>-\<close> subtracts their values.
\<close>

theorem addition_does_not_coerce:
  "execute ADDITION [VBytes [1], VBytes [2]] = Inr (VBytes [1, 2])
   \<and> execute SUBTRACTION [VBytes [1], VBytes [2]] = Inr (VInt (- 1))"
  by code_simp

end
